theory Spec2Isabelle
  imports Main
begin

section \<open>Python values shared by the modules\<close>

text \<open>
  Exceptions raised by the source are values: every function that can raise returns a sum
  whose left injection carries the exception. Messages are kept where the source builds
  them from literals.
\<close>

datatype py_error =
    KeyError string
  | FileNotFoundError string
  | FileExistsError string
  | NotADirectoryError string
  | TypeError string
  | ValueError string
  | CalledProcessError string
  | AttributeError string
  | IndexError string
  | SystemExit nat

text \<open>A loaded YAML document, as \<^verbatim>\<open>yaml.load\<close> hands it to the program.\<close>

datatype yaml =
    YStr string
  | YInt int
  | YBool bool
  | YNull
  | YList "yaml list"
  | YDict "(string \<times> yaml) list"

text \<open>
  A Python \<^verbatim>\<open>dict\<close> keeps insertion order, so it is an association list with unique
  keys: assigning to a present key replaces the value in place, assigning to a new key
  appends. \<^verbatim>\<open>{**a, **b}\<close> assigns the items of \<^verbatim>\<open>b\<close> in order on top of \<^verbatim>\<open>a\<close>.
\<close>

fun dict_set :: "('k \<times> 'v) list \<Rightarrow> 'k \<Rightarrow> 'v \<Rightarrow> ('k \<times> 'v) list" where
  "dict_set [] k v = [(k, v)]"
| "dict_set ((k', v') # d) k v =
     (if k' = k then (k, v) # d else (k', v') # dict_set d k v)"

definition dict_merge :: "('k \<times> 'v) list \<Rightarrow> ('k \<times> 'v) list \<Rightarrow> ('k \<times> 'v) list" where
  "dict_merge a b = foldl (\<lambda>d (k, v). dict_set d k v) a b"

text \<open>\<^verbatim>\<open>str.split(sep)\<close> for a one-character separator.\<close>

fun split_on :: "char \<Rightarrow> string \<Rightarrow> string list" where
  "split_on c [] = [[]]"
| "split_on c (x # xs) =
     (if x = c then [] # split_on c xs
      else (case split_on c xs of
              [] \<Rightarrow> [[x]]
            | p # ps \<Rightarrow> (x # p) # ps))"

text \<open>\<^verbatim>\<open>str(i)\<close> for a non-negative integer.\<close>

definition digit_char :: "nat \<Rightarrow> char" where
  "digit_char d = char_of (48 + d)"

function str_nat :: "nat \<Rightarrow> string" where
  "str_nat n = (if n < 10 then [digit_char n] else str_nat (n div 10) @ [digit_char (n mod 10)])"
  by pat_completeness auto
termination
  by (relation "measure id") auto

declare str_nat.simps [simp del]

section \<open>orchestrator.py: the constructor's handling of \<^verbatim>\<open>script\<close>\<close>

definition DEFAULTS :: "(string \<times> yaml) list" where
  "DEFAULTS =
     [(''name'', YStr ''canine''),
      (''adapter'', YDict [(''type'', YStr ''Manual'')]),
      (''backend'', YDict [(''type'', YStr ''Local'')])]"

text \<open>
  \<^verbatim>\<open>fill_config\<close> on an already loaded mapping. \<^verbatim>\<open>{**value, **cfg[key]}\<close> raises
  \<^verbatim>\<open>TypeError\<close> when \<^verbatim>\<open>cfg[key]\<close> is not a mapping.
\<close>

fun fill_config_loop ::
  "(string \<times> yaml) list \<Rightarrow> (string \<times> yaml) list \<Rightarrow> py_error + (string \<times> yaml) list" where
  "fill_config_loop [] cfg = Inr cfg"
| "fill_config_loop ((key, value) # ds) cfg =
     (case map_of cfg key of
        None \<Rightarrow> fill_config_loop ds (dict_set cfg key value)
      | Some cur \<Rightarrow>
          (case value of
             YDict dv \<Rightarrow>
               (case cur of
                  YDict dc \<Rightarrow> fill_config_loop ds (dict_set cfg key (YDict (dict_merge dv dc)))
                | _ \<Rightarrow> Inl (TypeError ''object is not a mapping''))
           | _ \<Rightarrow> fill_config_loop ds cfg))"

definition fill_config :: "(string \<times> yaml) list \<Rightarrow> py_error + (string \<times> yaml) list" where
  "fill_config cfg = fill_config_loop DEFAULTS cfg"

text \<open>
  \<^verbatim>\<open>Orchestrator.__init__\<close> from its first statement through the checks on
  \<^verbatim>\<open>script\<close> (the statements that follow only run when these return). The result is
  the value stored in \<^verbatim>\<open>self.script\<close>. \<open>isfile\<close> is \<^verbatim>\<open>os.path.isfile\<close> on the
  invoking host.
\<close>

fun is_str :: "yaml \<Rightarrow> bool" where
  "is_str (YStr s) = True"
| "is_str _ = False"

fun is_list :: "yaml \<Rightarrow> bool" where
  "is_list (YList ys) = True"
| "is_list _ = False"

fun str_of :: "yaml \<Rightarrow> string" where
  "str_of (YStr s) = s"
| "str_of _ = []"

definition Orchestrator_init_script ::
  "(string \<Rightarrow> bool) \<Rightarrow> (string \<times> yaml) list \<Rightarrow> py_error + yaml" where
  "Orchestrator_init_script isfile config0 =
     (case fill_config config0 of
        Inl e \<Rightarrow> Inl e
      | Inr config \<Rightarrow>
          (case map_of config ''script'' of
             None \<Rightarrow>
               Inl (KeyError (''Config missing required key '' @ [CHR 0x27] @ ''script''
                              @ [CHR 0x27]))
           | Some script \<Rightarrow>
               (if is_str script \<and> \<not> isfile (str_of script)
                  then Inl (FileNotFoundError (str_of script))
                else if \<not> is_list script
                  then Inl (TypeError
                    ''script must be a path to a bash script or a list of bash commands'')
                else Inr script)))"

section \<open>__main__.py: merging the command line into the configuration\<close>

text \<open>
  \<^verbatim>\<open>ConfType(nfields, nMax)\<close> returns the handler \<^verbatim>\<open>parse_arg\<close>. With too many
  fields the source evaluates \<^verbatim>\<open>args[:nMax-1] + ':'.join(args[nMax-1:])\<close>, a list plus
  a string, which raises \<^verbatim>\<open>TypeError\<close>. With too few fields it evaluates
  \<^verbatim>\<open>argparse.ArgumentError(argument, ...)\<close> with a string where an action is expected,
  and the constructor raises \<^verbatim>\<open>AttributeError\<close> when it reads \<^verbatim>\<open>option_strings\<close>.
\<close>

definition ConfType :: "nat \<Rightarrow> nat option \<Rightarrow> string \<Rightarrow> py_error + string list" where
  "ConfType nfields nMax_opt argument =
     (let nMax = (case nMax_opt of None \<Rightarrow> nfields | Some m \<Rightarrow> m);
          args = split_on CHR '':'' argument
      in if length args < nfields then
           Inl (AttributeError
             (''str object has no attribute option_strings''))
         else if length args > nMax then
           Inl (TypeError
             (''can only concatenate list (not '' @ [CHR 0x22] @ ''str'' @ [CHR 0x22]
              @ '') to list''))
         else Inr args)"

text \<open>The loop \<^verbatim>\<open>for name, val in args.input\<close> that builds the local \<^verbatim>\<open>inputs\<close>.\<close>

fun accumulate_inputs ::
  "(string \<times> yaml) list \<Rightarrow> (string \<times> string) list \<Rightarrow> (string \<times> yaml) list" where
  "accumulate_inputs inputs [] = inputs"
| "accumulate_inputs inputs ((name, val) # rest) =
     accumulate_inputs
       (case map_of inputs name of
          Some (YList vs) \<Rightarrow> dict_set inputs name (YList (vs @ [YStr val]))
        | Some v \<Rightarrow> dict_set inputs name (YList [v, YStr val])
        | None \<Rightarrow> dict_set inputs name (YStr val))
       rest"

text \<open>The block \<^verbatim>\<open>if len(args.input) > 0: ...\<close> of \<^verbatim>\<open>main\<close>, from \<^verbatim>\<open>conf\<close> to \<^verbatim>\<open>conf\<close>.\<close>

definition merge_inputs ::
  "(string \<times> yaml) list \<Rightarrow> (string \<times> string) list \<Rightarrow> py_error + (string \<times> yaml) list" where
  "merge_inputs conf args_input =
     (if length args_input > 0 then
        (let inputs = accumulate_inputs [] args_input;
             conf1 = (if map_of conf ''inputs'' = None
                      then dict_set conf ''inputs'' (YDict []) else conf)
         in case map_of conf1 ''inputs'' of
              Some (YDict ci) \<Rightarrow> Inr (dict_set conf1 ''inputs'' (YDict (dict_merge ci inputs)))
            | _ \<Rightarrow> Inl (TypeError ''object is not a mapping''))
      else Inr conf)"

text \<open>
  argparse applies \<^verbatim>\<open>ConfType(2)\<close> to every \<^verbatim>\<open>--input\<close> option and appends the result.
  A \<^verbatim>\<open>TypeError\<close> or \<^verbatim>\<open>ValueError\<close> of the handler is reported as a usage error and
  the parser exits with status 2; any other exception leaves the parser as it is. The
  loop of \<^verbatim>\<open>main\<close> then unpacks each result into \<^verbatim>\<open>name, val\<close>.
\<close>

definition argparse_get_value :: "(string \<Rightarrow> py_error + 'a) \<Rightarrow> string \<Rightarrow> py_error + 'a" where
  "argparse_get_value type_func arg_string =
     (case type_func arg_string of
        Inl (TypeError m) \<Rightarrow> Inl (SystemExit 2)
      | Inl (ValueError m) \<Rightarrow> Inl (SystemExit 2)
      | Inl e \<Rightarrow> Inl e
      | Inr v \<Rightarrow> Inr v)"

fun parse_input_options :: "string list \<Rightarrow> py_error + (string \<times> string) list" where
  "parse_input_options [] = Inr []"
| "parse_input_options (a # as) =
     (case argparse_get_value (ConfType 2 None) a of
        Inl e \<Rightarrow> Inl e
      | Inr fields \<Rightarrow>
          (case fields of
             [name, val] \<Rightarrow>
               (case parse_input_options as of
                  Inl e \<Rightarrow> Inl e
                | Inr rest \<Rightarrow> Inr ((name, val) # rest))
           | _ \<Rightarrow> Inl (ValueError ''not enough values to unpack'')))"

definition main_inputs ::
  "(string \<times> yaml) list \<Rightarrow> string list \<Rightarrow> py_error + (string \<times> yaml) list" where
  "main_inputs conf options =
     (case parse_input_options options of
        Inl e \<Rightarrow> Inl e
      | Inr args_input \<Rightarrow> merge_inputs conf args_input)"

section \<open>__main__.py and orchestrator.py: starting the pipeline\<close>

text \<open>
  The steps of \<^verbatim>\<open>Orchestrator.run_pipeline\<close> from its first statement through the
  submission, as the calls it makes on the adapter, the Localizer, the transport and the
  backend, in order. The body reads no flag: every step is unconditional except the
  choice between sending the script file and packing the script lines.
\<close>

datatype step =
    ParseInputs
  | LocalizeInputs
  | PackBatchScript
  | SendScript
  | WriteEntrypoint
  | LocalizeJob string
  | WaitForClusterReady
  | Sbatch

definition run_pipeline_steps :: "bool \<Rightarrow> string list \<Rightarrow> step list" where
  "run_pipeline_steps script_is_str job_spec =
     [ParseInputs, LocalizeInputs]
     @ (if script_is_str then [] else [PackBatchScript])
     @ (if script_is_str then [SendScript] else [])
     @ [WriteEntrypoint]
     @ map LocalizeJob job_spec
     @ [WaitForClusterReady, Sbatch]"

text \<open>
  \<^verbatim>\<open>def run_pipeline(self)\<close> declares no parameter besides \<^verbatim>\<open>self\<close>. Python binds
  the arguments of a call before it runs the body and raises \<^verbatim>\<open>TypeError\<close> when a
  positional argument has no parameter to go to; no statement of the body has run then.
\<close>

definition call_run_pipeline :: "bool list \<Rightarrow> bool \<Rightarrow> string list \<Rightarrow> py_error + step list" where
  "call_run_pipeline positional script_is_str job_spec =
     (if length positional > 0
      then Inl (TypeError
        (''run_pipeline() takes 1 positional argument but ''
          @ str_nat (length positional + 1) @ '' were given''))
      else Inr (run_pipeline_steps script_is_str job_spec))"

text \<open>
  The last statement of \<^verbatim>\<open>main\<close>: \<^verbatim>\<open>Orchestrator(conf).run_pipeline(args.dry_run)\<close>,
  for an Orchestrator already constructed.
\<close>

definition main_run_pipeline :: "bool \<Rightarrow> bool \<Rightarrow> string list \<Rightarrow> py_error + step list" where
  "main_run_pipeline dry_run script_is_str job_spec =
     call_run_pipeline [dry_run] script_is_str job_spec"

section \<open>Strings and paths (\<^verbatim>\<open>str\<close>, \<^verbatim>\<open>posixpath\<close>)\<close>

definition startswith :: "string \<Rightarrow> string \<Rightarrow> bool" where
  "startswith s p = (take (length p) s = p)"

definition endswith :: "string \<Rightarrow> string \<Rightarrow> bool" where
  "endswith s p = (length p \<le> length s \<and> drop (length s - length p) s = p)"

definition join2 :: "string \<Rightarrow> string \<Rightarrow> string" where
  "join2 path b =
     (if startswith b ''/'' then b
      else if path = [] \<or> endswith path ''/'' then path @ b
      else path @ ''/'' @ b)"

definition os_path_join :: "string \<Rightarrow> string list \<Rightarrow> string" where
  "os_path_join a p = foldl join2 a p"

definition basename :: "string \<Rightarrow> string" where
  "basename p = rev (takeWhile (\<lambda>c. c \<noteq> CHR ''/'') (rev p))"

definition rstrip_char :: "char \<Rightarrow> string \<Rightarrow> string" where
  "rstrip_char c s = rev (dropWhile (\<lambda>x. x = c) (rev s))"

definition dirname :: "string \<Rightarrow> string" where
  "dirname p =
     (let head = rev (dropWhile (\<lambda>c. c \<noteq> CHR ''/'') (rev p))
      in if head \<noteq> [] \<and> head \<noteq> replicate (length head) CHR ''/''
         then rstrip_char CHR ''/'' head else head)"

text \<open>
  \<^verbatim>\<open>os.path.splitext\<close>: the extension starts at the last dot of the last component,
  unless only dots precede it there.
\<close>

definition splitext :: "string \<Rightarrow> string \<times> string" where
  "splitext p =
     (let name = basename p;
          ext = rev (takeWhile (\<lambda>c. c \<noteq> CHR ''.'') (rev name));
          stem = take (length name - length ext - 1) name
      in if CHR ''.'' \<in> set name \<and> (\<exists>c \<in> set stem. c \<noteq> CHR ''.'')
         then (take (length p - length ext - 1) p, CHR ''.'' # ext)
         else (p, []))"

text \<open>The two parts \<^verbatim>\<open>os.path.splitext\<close> returns make up the path.\<close>

lemma basename_suffix: "\<exists>d. p = d @ basename p"
proof -
  have "rev (takeWhile (\<lambda>c. c \<noteq> CHR ''/'') (rev p) @ dropWhile (\<lambda>c. c \<noteq> CHR ''/'') (rev p)) = p"
    by simp
  then have "rev (dropWhile (\<lambda>c. c \<noteq> CHR ''/'') (rev p)) @ basename p = p"
    by (simp only: rev_append basename_def)
  then show ?thesis by (intro exI) (rule sym)
qed

lemma last_dot_split:
  assumes "CHR ''.'' \<in> set name"
  shows "\<exists>stem. name = stem @ CHR ''.'' # rev (takeWhile (\<lambda>c. c \<noteq> CHR ''.'') (rev name))"
proof -
  let ?P = "\<lambda>c. c \<noteq> CHR ''.''"
  from assms have ne: "dropWhile ?P (rev name) \<noteq> []" by (simp add: dropWhile_eq_Nil_conv)
  then have "\<not> ?P (hd (dropWhile ?P (rev name)))" by (rule hd_dropWhile)
  with ne obtain t where t: "dropWhile ?P (rev name) = CHR ''.'' # t"
    by (cases "dropWhile ?P (rev name)") auto
  have "rev (takeWhile ?P (rev name) @ dropWhile ?P (rev name)) = name" by simp
  then have "rev (takeWhile ?P (rev name) @ CHR ''.'' # t) = name" by (simp only: t)
  then have "rev t @ CHR ''.'' # rev (takeWhile ?P (rev name)) = name" by simp
  then show ?thesis by (intro exI) (rule sym)
qed

lemma splitext_append: "splitext p = (root, ext) \<Longrightarrow> root @ ext = p"
proof -
  assume a: "splitext p = (root, ext)"
  define name where "name = basename p"
  define e where "e = rev (takeWhile (\<lambda>c. c \<noteq> CHR ''.'') (rev name))"
  define C where "C = (CHR ''.'' \<in> set name \<and> (\<exists>c \<in> set (take (length name - length e - 1) name). c \<noteq> CHR ''.''))"
  have sp: "splitext p = (if C then (take (length p - length e - 1) p, CHR ''.'' # e) else (p, []))"
    unfolding splitext_def C_def e_def name_def Let_def ..
  show ?thesis
  proof (cases C)
    case False
    with a sp show ?thesis by simp
  next
    case True
    with a sp have r: "root = take (length p - length e - 1) p" and x: "ext = CHR ''.'' # e"
      by simp_all
    from True have "CHR ''.'' \<in> set name" unfolding C_def by (rule conjunct1)
    with last_dot_split [of name] obtain stem where st: "name = stem @ CHR ''.'' # e"
      unfolding e_def by blast
    from basename_suffix [of p] obtain d where d: "p = d @ name" unfolding name_def by blast
    have p: "p = (d @ stem) @ CHR ''.'' # e" using d st by simp
    have "length p - length e - 1 = length (d @ stem)"
      by (subst p) simp
    then have "root = take (length (d @ stem)) p" using r by simp
    also have "\<dots> = take (length (d @ stem)) ((d @ stem) @ CHR ''.'' # e)" using p by simp
    also have "\<dots> = d @ stem" by (rule append_eq_conv_conj [THEN iffD1, THEN conjunct1, symmetric]) (rule refl)
    finally have "root = d @ stem" .
    with x p show ?thesis by simp
  qed
qed

section \<open>localization.py: the Localizer and what it acts on\<close>

text \<open>\<^verbatim>\<open>Localization = namedtuple("Localization", ['type', 'path'])\<close>; the type is
  \<^verbatim>\<open>'stream'\<close>, \<^verbatim>\<open>'download'\<close> or \<^verbatim>\<open>None\<close>.\<close>

datatype localization = Localization "string option" string

text \<open>
  The state the Localizer reads and changes. Outside of it: the commands handed to
  \<^verbatim>\<open>backend.invoke\<close>, in order; the files and directories of the filesystem the transport
  works on; the transfers and the files written through the transport; the files and
  directories of the invoking host. Of its own: the class attribute
  \<^verbatim>\<open>requester_pays\<close> and the attributes \<^verbatim>\<open>common_inputs\<close> and \<^verbatim>\<open>inputs\<close>. Sets are
  lists without duplicates; paths are compared as strings.
\<close>

record world =
  invoked :: "string list"
  requester_pays :: "(string \<times> bool) list"
  remote_files :: "string list"
  remote_dirs :: "string list"
  sent :: "(string \<times> string) list"
  written :: "(string \<times> string) list"
  chmods :: "(string \<times> nat) list"
  local_files :: "string list"
  local_dirs :: "string list"
  received :: "(string \<times> string) list"
  common_inputs :: "string list"
  inputs :: "(string \<times> (string \<times> localization) list) list"

text \<open>The arguments of the constructor, with \<^verbatim>\<open>mount_path\<close> already normalised.\<close>

record localizer =
  staging_dir :: string
  mount_path :: string
  localize_gs :: bool
  common :: bool

text \<open>
  What the surroundings answer: the exit code of a command handed to \<^verbatim>\<open>invoke\<close>,
  whether its standard error names a requester pays bucket, and the result of
  \<^verbatim>\<open>get_default_gcp_project()\<close>.
\<close>

record host =
  exit_code :: "string \<Rightarrow> int"
  stderr_requester_pays :: "string \<Rightarrow> bool"
  default_gcp_project :: string

type_synonym 'a result = "(py_error \<times> world) + ('a \<times> world)"

text \<open>\<^verbatim>\<open>self.env\<close> (paths on the controller) and \<^verbatim>\<open>self.environment\<close> (paths on a worker).\<close>

definition env_CANINE_ROOT :: "localizer \<Rightarrow> string" where
  "env_CANINE_ROOT self = staging_dir self"

definition env_CANINE_COMMON :: "localizer \<Rightarrow> string" where
  "env_CANINE_COMMON self = os_path_join (staging_dir self) [''common'']"

definition env_CANINE_OUTPUT :: "localizer \<Rightarrow> string" where
  "env_CANINE_OUTPUT self = os_path_join (staging_dir self) [''outputs'']"

definition env_CANINE_JOBS :: "localizer \<Rightarrow> string" where
  "env_CANINE_JOBS self = os_path_join (staging_dir self) [''jobs'']"

definition environment_CANINE_ROOT :: "localizer \<Rightarrow> string" where
  "environment_CANINE_ROOT self = mount_path self"

definition environment_CANINE_COMMON :: "localizer \<Rightarrow> string" where
  "environment_CANINE_COMMON self = os_path_join (mount_path self) [''common'']"

definition environment_CANINE_OUTPUT :: "localizer \<Rightarrow> string" where
  "environment_CANINE_OUTPUT self = os_path_join (mount_path self) [''outputs'']"

definition environment_CANINE_JOBS :: "localizer \<Rightarrow> string" where
  "environment_CANINE_JOBS self = os_path_join (mount_path self) [''jobs'']"

section \<open>localization.py: the Localizer's scope exit\<close>

text \<open>
  How a \<^verbatim>\<open>with\<close> block leaves its scope, and the three arguments Python then passes
  to \<^verbatim>\<open>__exit__\<close>: all \<^verbatim>\<open>None\<close> on a clean exit, the exception's type, value and
  traceback otherwise.
\<close>

datatype scope_exit = CleanExit | Raised py_error

datatype exc_info = ExcType py_error | ExcValue py_error | Traceback py_error

fun exit_args :: "scope_exit \<Rightarrow> exc_info option list" where
  "exit_args CleanExit = [None, None, None]"
| "exit_args (Raised e) = [Some (ExcType e), Some (ExcValue e), Some (Traceback e)]"

definition Localizer_exit :: "localizer \<Rightarrow> exc_info option list \<Rightarrow> world \<Rightarrow> world" where
  "Localizer_exit self args w =
     (if length (filter (\<lambda>arg. arg \<noteq> None) args) = 0
      then w\<lparr>invoked := invoked w @ [''rm -rf '' @ env_CANINE_ROOT self]\<rparr>
      else w)"

section \<open>orchestrator.py: the poll loop of \<^verbatim>\<open>run_pipeline\<close>\<close>

text \<open>
  The members of \<^verbatim>\<open>waiting_jobs\<close> are \<^verbatim>\<open>'{}_{}'.format(batch_id, i)\<close>; the task
  handed to \<^verbatim>\<open>delocalize\<close> is \<^verbatim>\<open>jid.split('_')[1]\<close>.
\<close>

definition jid_of :: "string \<Rightarrow> nat \<Rightarrow> string" where
  "jid_of batch_id i = batch_id @ ''_'' @ str_nat i"

definition job_of_jid :: "string \<Rightarrow> py_error + string" where
  "job_of_jid jid =
     (case split_on CHR ''_'' jid of
        a # b # rest \<Rightarrow> Inr b
      | _ \<Rightarrow> Inl (IndexError ''list index out of range''))"

text \<open>
  One pass of \<^verbatim>\<open>for jid in [*waiting_jobs]\<close> over one \<^verbatim>\<open>sacct()\<close> table, which maps
  a job id of its index to the \<^verbatim>\<open>State\<close> column. The state of the loop is the waiting
  set, the state the Localizer works on, the \<^verbatim>\<open>outputs\<close> dictionary, and the tasks
  \<^verbatim>\<open>delocalize\<close> has been called for, in order. \<^verbatim>\<open>localizer.delocalize\<close> is a parameter
  here: it may raise, and then the exception leaves the loop.
\<close>

type_synonym ('s, 'o) poll_state = "string list \<times> 's \<times> (string \<times> 'o) list \<times> string list"

fun poll_sweep ::
  "(string \<Rightarrow> 's \<Rightarrow> py_error + 's \<times> (string \<times> 'o) list) \<Rightarrow> (string \<rightharpoonup> string) \<Rightarrow>
   string list \<Rightarrow> ('s, 'o) poll_state \<Rightarrow> py_error + ('s, 'o) poll_state" where
  "poll_sweep delocalize acct [] st = Inr st"
| "poll_sweep delocalize acct (jid # jids) (waiting_jobs, s, outputs, calls) =
     (case acct jid of
        None \<Rightarrow> poll_sweep delocalize acct jids (waiting_jobs, s, outputs, calls)
      | Some state \<Rightarrow>
          (if state \<notin> {''RUNNING'', ''PENDING''} then
             (case job_of_jid jid of
                Inl e \<Rightarrow> Inl e
              | Inr job \<Rightarrow>
                  (case delocalize job s of
                     Inl e \<Rightarrow> Inl e
                   | Inr (s', res) \<Rightarrow>
                       poll_sweep delocalize acct jids
                         (removeAll jid waiting_jobs, s', dict_merge outputs res, calls @ [job])))
           else poll_sweep delocalize acct jids (waiting_jobs, s, outputs, calls)))"

text \<open>
  The loop \<^verbatim>\<open>while len(waiting_jobs)\<close>. The tables that successive calls of
  \<^verbatim>\<open>sacct()\<close> return are a list; when the list is used up and tasks are still waiting,
  the loop has not returned (\<open>None\<close>).
\<close>

fun poll_loop ::
  "(string \<Rightarrow> 's \<Rightarrow> py_error + 's \<times> (string \<times> 'o) list) \<Rightarrow> (string \<rightharpoonup> string) list \<Rightarrow>
   ('s, 'o) poll_state \<Rightarrow> (py_error + ('s, 'o) poll_state) option" where
  "poll_loop delocalize accts (waiting_jobs, s, outputs, calls) =
     (if length waiting_jobs = 0 then Some (Inr (waiting_jobs, s, outputs, calls))
      else (case accts of
              [] \<Rightarrow> None
            | acct # later \<Rightarrow>
                (case poll_sweep delocalize acct waiting_jobs (waiting_jobs, s, outputs, calls) of
                   Inl e \<Rightarrow> Some (Inl e)
                 | Inr st \<Rightarrow> poll_loop delocalize later st)))"

text \<open>A task has left the queue: the table has it, in a state other than RUNNING and PENDING.\<close>

definition finished :: "(string \<rightharpoonup> string) \<Rightarrow> string \<Rightarrow> bool" where
  "finished acct jid =
     (case acct jid of None \<Rightarrow> False | Some state \<Rightarrow> state \<notin> {''RUNNING'', ''PENDING''})"

text \<open>
  For stating the results: \<^verbatim>\<open>delocalize\<close> applied to a list of tasks one after the other,
  each on the state and the outputs the one before left, up to the first that raises;
  the array indices the loop delocalizes over a list of \<^verbatim>\<open>sacct()\<close> tables, in order;
  and the indices still waiting after those tables.
\<close>

fun run_delocalize ::
  "(string \<Rightarrow> 's \<Rightarrow> py_error + 's \<times> (string \<times> 'o) list) \<Rightarrow> string list \<Rightarrow>
   's \<times> (string \<times> 'o) list \<Rightarrow> py_error + 's \<times> (string \<times> 'o) list" where
  "run_delocalize deloc [] st = Inr st"
| "run_delocalize deloc (job # jobs) (s, outputs) =
     (case deloc job s of
        Inl e \<Rightarrow> Inl e
      | Inr (s', res) \<Rightarrow> run_delocalize deloc jobs (s', dict_merge outputs res))"

fun delocalized_order :: "string \<Rightarrow> (string \<rightharpoonup> string) list \<Rightarrow> nat list \<Rightarrow> nat list" where
  "delocalized_order batch_id [] idxs = []"
| "delocalized_order batch_id (acct # accts) idxs =
     filter (\<lambda>i. finished acct (jid_of batch_id i)) idxs
     @ delocalized_order batch_id accts (filter (\<lambda>i. \<not> finished acct (jid_of batch_id i)) idxs)"

fun still_waiting :: "string \<Rightarrow> (string \<rightharpoonup> string) list \<Rightarrow> nat list \<Rightarrow> nat list" where
  "still_waiting batch_id [] idxs = idxs"
| "still_waiting batch_id (acct # accts) idxs =
     still_waiting batch_id accts (filter (\<lambda>i. \<not> finished acct (jid_of batch_id i)) idxs)"

section \<open>localization.py: the transport and the backend, as the Localizer uses them\<close>

text \<open>\<^verbatim>\<open>str.lower\<close> on ASCII letters.\<close>

definition lower_char :: "char \<Rightarrow> char" where
  "lower_char c =
     (if 65 \<le> (of_char c :: nat) \<and> (of_char c :: nat) \<le> 90 then char_of (of_char c + 32 :: nat) else c)"

definition lower :: "string \<Rightarrow> string" where
  "lower s = map lower_char s"

text \<open>\<^verbatim>\<open>set.add\<close>.\<close>

definition set_add :: "'a list \<Rightarrow> 'a \<Rightarrow> 'a list" where
  "set_add xs x = (if x \<in> set xs then xs else xs @ [x])"

text \<open>The directories above a path, nearest first.\<close>

fun ancestors_upto :: "nat \<Rightarrow> string \<Rightarrow> string list" where
  "ancestors_upto 0 p = []"
| "ancestors_upto (Suc n) p =
     (let d = dirname p in if d = [] \<or> d = p then [] else d # ancestors_upto n d)"

definition ancestors :: "string \<Rightarrow> string list" where
  "ancestors p = ancestors_upto (length p) p"


definition transport_isdir :: "world \<Rightarrow> string \<Rightarrow> bool" where
  "transport_isdir w p = (p \<in> set (remote_dirs w))"

definition transport_isfile :: "world \<Rightarrow> string \<Rightarrow> bool" where
  "transport_isfile w p = (p \<in> set (remote_files w))"

definition transport_makedirs :: "string \<Rightarrow> world \<Rightarrow> world" where
  "transport_makedirs p w = w\<lparr>remote_dirs := foldl set_add (remote_dirs w) (p # ancestors p)\<rparr>"

definition os_path_isfile :: "world \<Rightarrow> string \<Rightarrow> bool" where
  "os_path_isfile w p = (p \<in> set (local_files w))"

definition transport_send :: "string \<Rightarrow> string \<Rightarrow> world \<Rightarrow> unit result" where
  "transport_send src dst w =
     (if \<not> os_path_isfile w src then Inl (FileNotFoundError src, w)
      else Inr ((), w\<lparr>sent := sent w @ [(src, dst)],
                       remote_files := set_add (remote_files w) dst\<rparr>))"

definition transport_receive :: "string \<Rightarrow> string \<Rightarrow> world \<Rightarrow> unit result" where
  "transport_receive src dst w =
     (if \<not> transport_isfile w src then Inl (FileNotFoundError src, w)
      else Inr ((), w\<lparr>received := received w @ [(src, dst)],
                       local_files := set_add (local_files w) dst\<rparr>))"

definition transport_remove :: "string \<Rightarrow> world \<Rightarrow> world" where
  "transport_remove p w = w\<lparr>remote_files := removeAll p (remote_files w)\<rparr>"



text \<open>
  \<^verbatim>\<open>backend.invoke\<close> runs the command and never raises. Modelled from the spec:
  \<^verbatim>\<open>check_call\<close> (of \<^verbatim>\<open>utils\<close>, not among the sources) turns a non-zero exit code into
  a command failure.
\<close>

definition invoke :: "host \<Rightarrow> string \<Rightarrow> world \<Rightarrow> int \<times> world" where
  "invoke h command w = (exit_code h command, w\<lparr>invoked := invoked w @ [command]\<rparr>)"

definition check_call :: "string \<Rightarrow> int \<Rightarrow> world \<Rightarrow> unit result" where
  "check_call command rc w = (if rc \<noteq> 0 then Inl (CalledProcessError command, w) else Inr ((), w))"

text \<open>\<^verbatim>\<open>Localizer.get_requester_pays\<close>, with its memo in the class attribute.\<close>

definition get_requester_pays :: "host \<Rightarrow> string \<Rightarrow> world \<Rightarrow> bool \<times> world" where
  "get_requester_pays h path0 w =
     (let path = (if startswith path0 ''gs://'' then drop 5 path0 else path0);
          bucket = (case split_on CHR ''/'' path of [] \<Rightarrow> [] | b # rest \<Rightarrow> b);
          w1 = (if map_of (requester_pays w) bucket = None then
                  (let command = ''gsutil ls gs://'' @ path;
                       (rc, w') = invoke h command w
                   in w'\<lparr>requester_pays :=
                         dict_set (requester_pays w') bucket (stderr_requester_pays h command)\<rparr>)
                else w)
      in (map_of (requester_pays w1) bucket = Some True, w1))"

text \<open>
  The command both copies build, \<^verbatim>\<open>"gsutil {} cp {} {}".format(...)\<close>, run through
  \<^verbatim>\<open>invoke\<close> and \<^verbatim>\<open>check_call\<close>. A copy that exits with 0 has created its destination.
\<close>

definition gsutil_cp_command :: "host \<Rightarrow> bool \<Rightarrow> string \<Rightarrow> string \<Rightarrow> string" where
  "gsutil_cp_command h pays src dst =
     ''gsutil '' @ (if pays then ''-u '' @ default_gcp_project h else [])
       @ '' cp '' @ src @ '' '' @ dst"

definition gsutil_cp :: "host \<Rightarrow> string \<Rightarrow> string \<Rightarrow> world \<Rightarrow> unit result" where
  "gsutil_cp h src dst w =
     (let (pays, w1) = get_requester_pays h src w;
          command = gsutil_cp_command h pays src dst;
          (rc, w2) = invoke h command w1
      in case check_call command rc w2 of
           Inl e \<Rightarrow> Inl e
         | Inr (u, w3) \<Rightarrow> Inr ((), w3\<lparr>remote_files := set_add (remote_files w3) dst\<rparr>))"

section \<open>localization.py: \<^verbatim>\<open>Localizer.localize_file\<close>\<close>

text \<open>
  The loop \<^verbatim>\<open>while transport.exists(filepath)\<close>, over the paths that exist. Each turn
  makes the path longer, so the loop ends.
\<close>

definition maxlen :: "string list \<Rightarrow> nat" where
  "maxlen ps = foldr (\<lambda>p m. max (length p) m) ps 0"

function decollide :: "string list \<Rightarrow> string \<Rightarrow> string" where
  "decollide existing filepath =
     (if filepath \<in> set existing
      then (case splitext filepath of (root, ext) \<Rightarrow> decollide existing (root @ ''._alt'' @ ext))
      else filepath)"
  by pat_completeness auto
termination
proof (relation "measure (\<lambda>(existing, filepath). Suc (maxlen existing) - length filepath)", goal_cases)
  case 1
  show ?case by simp
next
  case (2 existing filepath xa y)
  have le: "length p \<le> maxlen ps" if "p \<in> set ps" for p :: string and ps
    using that unfolding maxlen_def by (induction ps) auto
  from 2 have "splitext filepath = (xa, y)" by simp
  then have "xa @ y = filepath" by (rule splitext_append)
  then have "length (xa @ ''._alt'' @ y) = length filepath + 5" by auto
  with le [OF 2(1)] show ?case by simp
qed

declare decollide.simps [simp del]

text \<open>
  The path returned is built again from \<^verbatim>\<open>os.path.basename(value)\<close>; the path the
  loop arrived at is only where the copy goes.
\<close>

definition localize_file ::
  "host \<Rightarrow> localizer \<Rightarrow> string \<Rightarrow> string \<Rightarrow> string \<Rightarrow> bool \<Rightarrow> world \<Rightarrow> string result" where
  "localize_file h self jobId name value delayed w =
     (let filepath0 = os_path_join (env_CANINE_JOBS self) [jobId, ''inputs'', basename value];
          w1 = transport_makedirs (dirname filepath0) w;
          filepath = decollide (remote_files w1 @ remote_dirs w1) filepath0;
          computepath =
            os_path_join (environment_CANINE_JOBS self) [jobId, ''inputs'', basename value]
      in if \<not> delayed then
           (if localize_gs self \<and> startswith value ''gs://'' then
              (case gsutil_cp h value filepath w1 of
                 Inl e \<Rightarrow> Inl e
               | Inr (u, w2) \<Rightarrow> Inr (computepath, w2))
            else if os_path_isfile w1 value then
              (case transport_send value filepath w1 of
                 Inl e \<Rightarrow> Inl e
               | Inr (u, w2) \<Rightarrow> Inr (computepath, w2))
            else Inr (computepath, w1))
         else Inr (computepath, w1))"

section \<open>localization.py: \<^verbatim>\<open>Localizer.localize\<close>\<close>

text \<open>Overrides: a string is lowercased, anything else becomes \<^verbatim>\<open>None\<close>.\<close>

definition normalize_overrides :: "(string \<times> yaml) list \<Rightarrow> (string \<times> string option) list" where
  "normalize_overrides overrides =
     map (\<lambda>(k, v). (k, if is_str v then Some (lower (str_of v)) else None)) overrides"

text \<open>
  The two nested loops that fill \<^verbatim>\<open>self.common_inputs\<close>. \<^verbatim>\<open>seen\<close> is one set for all
  tasks and all inputs.
\<close>

fun common_scan_values ::
  "(string \<times> string option) list \<Rightarrow> (string \<times> string) list \<Rightarrow>
   string list \<times> string list \<Rightarrow> string list \<times> string list" where
  "common_scan_values overrides [] (seen, commons) = (seen, commons)"
| "common_scan_values overrides ((arg, path) # rest) (seen, commons) =
     (let c1 = (if path \<in> set seen
                   \<and> (map_of overrides arg = None \<or> map_of overrides arg = Some (Some ''common''))
                then set_add commons path else commons);
          c2 = (if map_of overrides arg \<noteq> None \<and> map_of overrides arg = Some (Some ''common'')
                then set_add c1 path else c1)
      in common_scan_values overrides rest (set_add seen path, c2))"

fun common_scan ::
  "(string \<times> string option) list \<Rightarrow> (string \<times> (string \<times> string) list) list \<Rightarrow>
   string list \<times> string list \<Rightarrow> string list \<times> string list" where
  "common_scan overrides [] st = st"
| "common_scan overrides ((jobId, values) # rest) st =
     common_scan overrides rest (common_scan_values overrides values st)"

text \<open>
  The loop over \<^verbatim>\<open>self.common_inputs\<close> that copies into \<^verbatim>\<open>common/\<close> and fills
  \<^verbatim>\<open>common_dests\<close>. A Python set has no fixed order; the list is walked front to back.
\<close>

fun localize_common ::
  "host \<Rightarrow> localizer \<Rightarrow> string list \<Rightarrow> (string \<times> string) list \<Rightarrow> world \<Rightarrow>
   (string \<times> string) list result" where
  "localize_common h self [] common_dests w = Inr (common_dests, w)"
| "localize_common h self (path # rest) common_dests w =
     (if startswith path ''gs://'' \<and> localize_gs self then
        (case gsutil_cp h path (os_path_join (env_CANINE_COMMON self) [basename path]) w of
           Inl e \<Rightarrow> Inl e
         | Inr (u, w1) \<Rightarrow>
             localize_common h self rest
               (dict_set common_dests path
                  (os_path_join (environment_CANINE_COMMON self) [basename path])) w1)
      else if os_path_isfile w path then
        (case transport_send path (os_path_join (env_CANINE_COMMON self) [basename path]) w of
           Inl e \<Rightarrow> Inl e
         | Inr (u, w1) \<Rightarrow>
             localize_common h self rest
               (dict_set common_dests path
                  (os_path_join (environment_CANINE_COMMON self) [basename path])) w1)
      else localize_common h self rest common_dests w)"

text \<open>\<^verbatim>\<open>self.inputs[jobId][arg] = loc\<close>.\<close>

definition set_input :: "string \<Rightarrow> string \<Rightarrow> localization \<Rightarrow> world \<Rightarrow> world" where
  "set_input jobId arg loc w =
     w\<lparr>inputs := dict_set (inputs w) jobId
        (dict_set (case map_of (inputs w) jobId of None \<Rightarrow> [] | Some d \<Rightarrow> d) arg loc)\<rparr>"

text \<open>
  The body of \<^verbatim>\<open>for arg, value in data.items()\<close>. \<^verbatim>\<open>mode\<close> is \<^verbatim>\<open>False\<close> when the
  input has no override (\<open>None\<close> here), else the override, which may be \<^verbatim>\<open>None\<close>. The
  chain under \<^verbatim>\<open>if mode is not False\<close> has no final \<^verbatim>\<open>else\<close>: a mode that is none of
  \<^verbatim>\<open>'stream'\<close>, \<^verbatim>\<open>'localize'\<close>, \<^verbatim>\<open>'delayed'\<close> and \<^verbatim>\<open>None\<close> assigns nothing.
\<close>

definition localize_value ::
  "host \<Rightarrow> localizer \<Rightarrow> (string \<times> string option) list \<Rightarrow> (string \<times> string) list \<Rightarrow>
   string \<Rightarrow> string \<Rightarrow> string \<Rightarrow> world \<Rightarrow> unit result" where
  "localize_value h self overrides common_dests jobId arg value w =
     (case map_of overrides arg of
        Some mode \<Rightarrow>
          (if mode = Some ''stream'' then
             Inr ((), set_input jobId arg (Localization (Some ''stream'') value) w)
           else if mode = Some ''localize'' then
             (case localize_file h self jobId arg value False w of
                Inl e \<Rightarrow> Inl e
              | Inr (p, w1) \<Rightarrow> Inr ((), set_input jobId arg (Localization None p) w1))
           else if mode = Some ''delayed'' then
             (if \<not> startswith value ''gs://'' then
                (case localize_file h self jobId arg value False w of
                   Inl e \<Rightarrow> Inl e
                 | Inr (p, w1) \<Rightarrow> Inr ((), set_input jobId arg (Localization None p) w1))
              else Inr ((), set_input jobId arg (Localization (Some ''download'') value) w))
           else if mode = None then
             Inr ((), set_input jobId arg (Localization None value) w)
           else Inr ((), w))
      | None \<Rightarrow>
          (case map_of common_dests value of
             Some dest \<Rightarrow> Inr ((), set_input jobId arg (Localization None dest) w)
           | None \<Rightarrow>
               (if os_path_isfile w value \<or> startswith value ''gs://'' then
                  (case localize_file h self jobId arg value False w of
                     Inl e \<Rightarrow> Inl e
                   | Inr (p, w1) \<Rightarrow> Inr ((), set_input jobId arg (Localization None p) w1))
                else Inr ((), set_input jobId arg (Localization None value) w))))"

fun localize_values ::
  "host \<Rightarrow> localizer \<Rightarrow> (string \<times> string option) list \<Rightarrow> (string \<times> string) list \<Rightarrow>
   string \<Rightarrow> (string \<times> string) list \<Rightarrow> world \<Rightarrow> unit result" where
  "localize_values h self overrides common_dests jobId [] w = Inr ((), w)"
| "localize_values h self overrides common_dests jobId ((arg, value) # rest) w =
     (case localize_value h self overrides common_dests jobId arg value w of
        Inl e \<Rightarrow> Inl e
      | Inr (u, w1) \<Rightarrow> localize_values h self overrides common_dests jobId rest w1)"

fun localize_jobs ::
  "host \<Rightarrow> localizer \<Rightarrow> (string \<times> string option) list \<Rightarrow> (string \<times> string) list \<Rightarrow>
   (string \<times> (string \<times> string) list) list \<Rightarrow> world \<Rightarrow> unit result" where
  "localize_jobs h self overrides common_dests [] w = Inr ((), w)"
| "localize_jobs h self overrides common_dests ((jobId, data) # rest) w =
     (let workspace_path = os_path_join (env_CANINE_JOBS self) [jobId, ''workspace''];
          w1 = (if \<not> transport_isdir w workspace_path
                then transport_makedirs workspace_path w else w);
          w2 = w1\<lparr>inputs := dict_set (inputs w1) jobId []\<rparr>
      in case localize_values h self overrides common_dests jobId data w2 of
           Inl e \<Rightarrow> Inl e
         | Inr (u, w3) \<Rightarrow> localize_jobs h self overrides common_dests rest w3)"

definition plan_common ::
  "localizer \<Rightarrow> (string \<times> string option) list \<Rightarrow> (string \<times> (string \<times> string) list) list \<Rightarrow>
   world \<Rightarrow> world" where
  "plan_common self overrides job_inputs w =
     (if common self
      then w\<lparr>common_inputs := snd (common_scan overrides job_inputs ([], common_inputs w))\<rparr>
      else w)"

definition localize ::
  "host \<Rightarrow> localizer \<Rightarrow> (string \<times> (string \<times> string) list) list \<Rightarrow>
   (string \<times> yaml) list option \<Rightarrow> world \<Rightarrow> unit result" where
  "localize h self job_inputs overrides0 w =
     (let overrides = normalize_overrides (case overrides0 of None \<Rightarrow> [] | Some ov \<Rightarrow> ov);
          w1 = plan_common self overrides job_inputs w
      in case localize_common h self (common_inputs w1) [] w1 of
           Inl e \<Rightarrow> Inl e
         | Inr (common_dests, w2) \<Rightarrow> localize_jobs h self overrides common_dests job_inputs w2)"

text \<open>The world a result leaves behind, whether the call returned or raised.\<close>

fun world_of :: "'a result \<Rightarrow> world" where
  "world_of (Inl (e, w)) = w"
| "world_of (Inr (x, w)) = w"

text \<open>\<^verbatim>\<open>self.inputs[jobId][arg]\<close>, when present.\<close>

definition input_of :: "world \<Rightarrow> string \<Rightarrow> string \<Rightarrow> localization option" where
  "input_of w jobId arg =
     (case map_of (inputs w) jobId of None \<Rightarrow> None | Some d \<Rightarrow> map_of d arg)"

text \<open>
  Concrete surroundings for the examples: a host on which every command succeeds and no
  bucket is requester pays, a Localizer staging under \<^verbatim>\<open>stage\<close> mounted at
  \<^verbatim>\<open>/mnt/stage\<close>, and a world that holds nothing but the given local files.
\<close>

definition quiet_host :: host where
  "quiet_host =
     \<lparr>exit_code = (\<lambda>c. 0), stderr_requester_pays = (\<lambda>c. False),
      default_gcp_project = ''project''\<rparr>"

definition stage_localizer :: localizer where
  "stage_localizer =
     \<lparr>staging_dir = ''stage'', mount_path = ''/mnt/stage'', localize_gs = True, common = True\<rparr>"

definition fresh_world :: "string list \<Rightarrow> world" where
  "fresh_world files =
     \<lparr>invoked = [], requester_pays = [], remote_files = [], remote_dirs = [], sent = [],
      written = [], chmods = [], local_files = files, local_dirs = [], received = [],
      common_inputs = [], inputs = []\<rparr>"

section \<open>localization.py: \<^verbatim>\<open>Localizer.localize_job\<close>\<close>











section \<open>localization.py: \<^verbatim>\<open>Localizer.delocalize\<close> for one task\<close>

text \<open>
  \<^verbatim>\<open>fnmatch.fnmatch\<close> and \<^verbatim>\<open>os.path.relpath\<close> of the standard library are parameters.
\<close>

record stdlib =
  fnmatch :: "string \<Rightarrow> string \<Rightarrow> bool"
  relpath :: "string \<Rightarrow> string \<Rightarrow> string"

text \<open>
  \<^verbatim>\<open>os.makedirs(path)\<close> on the invoking host, with \<^verbatim>\<open>exist_ok\<close> left at
  \<^verbatim>\<open>False\<close>: it raises when the directory is there already.
\<close>

definition os_makedirs :: "string \<Rightarrow> world \<Rightarrow> unit result" where
  "os_makedirs p w =
     (if p = [] then Inl (FileNotFoundError p, w)
      else if p \<in> set (local_dirs w) \<or> p \<in> set (local_files w) then Inl (FileExistsError p, w)
      else if list_ex (\<lambda>a. a \<in> set (local_files w)) (ancestors p)
        then Inl (NotADirectoryError p, w)
      else Inr ((), w\<lparr>local_dirs := foldl set_add (local_dirs w) (p # ancestors p)\<rparr>))"

definition delocalize_file ::
  "string \<Rightarrow> string \<Rightarrow> string \<Rightarrow> string \<Rightarrow> world \<Rightarrow> string result" where
  "delocalize_file jobId name fullname output_dir w =
     (let output_path = os_path_join output_dir [jobId, name, basename fullname]
      in case os_makedirs (dirname output_path) w of
           Inl e \<Rightarrow> Inl e
         | Inr (u, w1) \<Rightarrow>
             (case transport_receive fullname output_path w1 of
                Inl e \<Rightarrow> Inl e
              | Inr (u, w2) \<Rightarrow> Inr (output_path, w2)))"

text \<open>
  What the innermost loop does for a file that matches: \<^verbatim>\<open>delocalize_file\<close>, the
  assignment to \<^verbatim>\<open>output_files[name]\<close>, and the removal when \<^verbatim>\<open>delete\<close> is set.
\<close>

definition delocalize_match ::
  "string \<Rightarrow> string \<Rightarrow> bool \<Rightarrow> string \<Rightarrow> string \<Rightarrow> (string \<times> string) list \<Rightarrow> world \<Rightarrow>
   (string \<times> string) list result" where
  "delocalize_match jobId output_dir delete name fullname output_files w =
     (case delocalize_file jobId name fullname output_dir w of
        Inl e \<Rightarrow> Inl e
      | Inr (path, w1) \<Rightarrow>
          Inr (dict_set output_files name path,
               if delete then (if transport_isfile w1 fullname then transport_remove fullname w1 else w1)
               else w1))"

text \<open>
  The three nested loops, innermost first: over the file names of one directory, over
  the patterns, over the triples \<^verbatim>\<open>transport.walk(start_dir)\<close> yields. The walk is given
  as the list of its triples.
\<close>

fun delocalize_filenames ::
  "stdlib \<Rightarrow> string \<Rightarrow> string \<Rightarrow> bool \<Rightarrow> string \<Rightarrow> string \<Rightarrow> string \<Rightarrow> string \<Rightarrow>
   string list \<Rightarrow> (string \<times> string) list \<Rightarrow> world \<Rightarrow> (string \<times> string) list result" where
  "delocalize_filenames lib jobId output_dir delete start_dir dirpath name pattern [] output_files w =
     Inr (output_files, w)"
| "delocalize_filenames lib jobId output_dir delete start_dir dirpath name pattern (filename # rest)
       output_files w =
     (let fullname = os_path_join dirpath [filename]
      in if fnmatch lib fullname pattern \<or> fnmatch lib (relpath lib fullname start_dir) pattern then
           (case delocalize_match jobId output_dir delete name fullname output_files w of
              Inl e \<Rightarrow> Inl e
            | Inr (output_files1, w1) \<Rightarrow>
                delocalize_filenames lib jobId output_dir delete start_dir dirpath name pattern rest
                  output_files1 w1)
         else delocalize_filenames lib jobId output_dir delete start_dir dirpath name pattern rest
                output_files w)"

fun delocalize_patterns ::
  "stdlib \<Rightarrow> string \<Rightarrow> string \<Rightarrow> bool \<Rightarrow> string \<Rightarrow> string \<Rightarrow> string list \<Rightarrow>
   (string \<times> string) list \<Rightarrow> (string \<times> string) list \<Rightarrow> world \<Rightarrow> (string \<times> string) list result" where
  "delocalize_patterns lib jobId output_dir delete start_dir dirpath filenames [] output_files w =
     Inr (output_files, w)"
| "delocalize_patterns lib jobId output_dir delete start_dir dirpath filenames
       ((name, pattern) # rest) output_files w =
     (case delocalize_filenames lib jobId output_dir delete start_dir dirpath name pattern filenames
             output_files w of
        Inl e \<Rightarrow> Inl e
      | Inr (output_files1, w1) \<Rightarrow>
          delocalize_patterns lib jobId output_dir delete start_dir dirpath filenames rest
            output_files1 w1)"

fun delocalize_walk ::
  "stdlib \<Rightarrow> string \<Rightarrow> string \<Rightarrow> bool \<Rightarrow> string \<Rightarrow> (string \<times> string) list \<Rightarrow>
   (string \<times> string list \<times> string list) list \<Rightarrow>
   (string \<times> string) list \<Rightarrow> world \<Rightarrow> (string \<times> string) list result" where
  "delocalize_walk lib jobId output_dir delete start_dir patterns [] output_files w =
     Inr (output_files, w)"
| "delocalize_walk lib jobId output_dir delete start_dir patterns
       ((dirpath, dirnames, filenames) # rest) output_files w =
     (case delocalize_patterns lib jobId output_dir delete start_dir dirpath filenames patterns
             output_files w of
        Inl e \<Rightarrow> Inl e
      | Inr (output_files1, w1) \<Rightarrow>
          delocalize_walk lib jobId output_dir delete start_dir patterns rest output_files1 w1)"

text \<open>The branch of \<^verbatim>\<open>delocalize\<close> for a given \<^verbatim>\<open>jobId\<close>, which is the one the poll loop calls.\<close>

definition delocalize ::
  "stdlib \<Rightarrow> localizer \<Rightarrow> (string \<times> string) list \<Rightarrow> string \<Rightarrow> string \<Rightarrow>
   (string \<times> string list \<times> string list) list \<Rightarrow> bool \<Rightarrow> world \<Rightarrow>
   (string \<times> (string \<times> string) list) list result" where
  "delocalize lib self patterns output_dir jobId walk delete w =
     (let start_dir = os_path_join (env_CANINE_JOBS self) [jobId, ''workspace'']
      in case delocalize_walk lib jobId output_dir delete start_dir patterns walk [] w of
           Inl e \<Rightarrow> Inl e
         | Inr (output_files, w1) \<Rightarrow> Inr ([(jobId, output_files)], w1))"

text \<open>
  For stating the results: the directory \<^verbatim>\<open>delocalize_file\<close> creates for an output name,
  the matches in the order the loops meet them, and the loops' work on such a list.
\<close>

definition out_dir :: "string \<Rightarrow> string \<Rightarrow> string \<Rightarrow> string" where
  "out_dir output_dir jobId name = dirname (os_path_join output_dir [jobId, name, []])"

definition matches_of ::
  "stdlib \<Rightarrow> string \<Rightarrow> (string \<times> string) list \<Rightarrow>
   (string \<times> string list \<times> string list) list \<Rightarrow> (string \<times> string) list" where
  "matches_of lib start_dir patterns walk =
     concat (map (\<lambda>(dirpath, dirnames, filenames).
       concat (map (\<lambda>(name, pattern).
         map (\<lambda>filename. (name, os_path_join dirpath [filename]))
           (filter (\<lambda>filename.
              fnmatch lib (os_path_join dirpath [filename]) pattern
              \<or> fnmatch lib (relpath lib (os_path_join dirpath [filename]) start_dir) pattern)
            filenames)) patterns)) walk)"

fun delocalize_matches ::
  "string \<Rightarrow> string \<Rightarrow> bool \<Rightarrow> (string \<times> string) list \<Rightarrow> (string \<times> string) list \<Rightarrow> world \<Rightarrow>
   (string \<times> string) list result" where
  "delocalize_matches jobId output_dir delete [] output_files w = Inr (output_files, w)"
| "delocalize_matches jobId output_dir delete ((name, fullname) # rest) output_files w =
     (case delocalize_match jobId output_dir delete name fullname output_files w of
        Inl e \<Rightarrow> Inl e
      | Inr (output_files1, w1) \<Rightarrow> delocalize_matches jobId output_dir delete rest output_files1 w1)"

text \<open>
  For the examples: a matcher that knows the one pattern \<^verbatim>\<open>*.txt\<close>, and a workspace
  of task 0 with two text files and the standard output.
\<close>

definition suffix_lib :: stdlib where
  "suffix_lib =
     \<lparr>fnmatch = (\<lambda>name pat. pat = ''*.txt'' \<and> endswith name ''.txt''),
      relpath = (\<lambda>p start. drop (length start + 1) p)\<rparr>"

definition workspace_world :: world where
  "workspace_world =
     (fresh_world [])\<lparr>remote_files :=
        [''stage/jobs/0/workspace/a.txt'', ''stage/jobs/0/workspace/b.txt'',
         ''stage/jobs/0/workspace/stdout'']\<rparr>"

text \<open>
  The call the poll loop makes, \<^verbatim>\<open>localizer.delocalize(self.raw_outputs, jobId=job)\<close>,
  with the defaults \<^verbatim>\<open>output_dir='canine_output'\<close> and \<^verbatim>\<open>delete=True\<close>, as a step on the
  world; and for the examples two workspaces with one text file each.
\<close>

definition delocalize_task ::
  "stdlib \<Rightarrow> localizer \<Rightarrow> (string \<times> string) list \<Rightarrow>
   (string \<Rightarrow> (string \<times> string list \<times> string list) list) \<Rightarrow> string \<Rightarrow> world \<Rightarrow>
   py_error + world \<times> (string \<times> (string \<times> string) list) list" where
  "delocalize_task lib self raw_outputs walk job w =
     (case delocalize lib self raw_outputs ''canine_output'' job (walk job) True w of
        Inl (e, w1) \<Rightarrow> Inl e
      | Inr (res, w1) \<Rightarrow> Inr (w1, res))"

definition two_workspaces :: world where
  "two_workspaces =
     (fresh_world [])\<lparr>remote_files :=
        [''stage/jobs/0/workspace/out.txt'', ''stage/jobs/0/workspace/stdout'',
         ''stage/jobs/1/workspace/out.txt'', ''stage/jobs/1/workspace/stdout'']\<rparr>"

definition workspace_walk :: "string \<Rightarrow> (string \<times> string list \<times> string list) list" where
  "workspace_walk job = [(''stage/jobs/'' @ job @ ''/workspace'', [], [''out.txt'', ''stdout''])]"

section \<open>Results\<close>

text \<open>
  C9. Leaving the Localizer's scope hands \<^verbatim>\<open>rm -rf $CANINE_ROOT\<close> to the backend if and
  only if the scope was left cleanly; when an exception unwinds the scope no command is
  issued and the world is what it was.
\<close>

theorem localizer_exit_cleans_iff_clean:
  "(Localizer_exit self (exit_args how) w
      = w\<lparr>invoked := invoked w @ [''rm -rf '' @ staging_dir self]\<rparr>) = (how = CleanExit)
   \<and> ((Localizer_exit self (exit_args how) w = w) = (how \<noteq> CleanExit))"
proof -
  have neq: "w\<lparr>invoked := invoked w @ [''rm -rf '' @ staging_dir self]\<rparr> \<noteq> w"
  proof
    assume "w\<lparr>invoked := invoked w @ [''rm -rf '' @ staging_dir self]\<rparr> = w"
    then have "invoked (w\<lparr>invoked := invoked w @ [''rm -rf '' @ staging_dir self]\<rparr>) = invoked w"
      by simp
    then show False by simp
  qed
  show ?thesis
  proof (cases how)
    case CleanExit
    with neq show ?thesis by (simp add: Localizer_exit_def env_CANINE_ROOT_def)
  next
    case (Raised e)
    with neq [symmetric] show ?thesis by (simp add: Localizer_exit_def env_CANINE_ROOT_def)
  qed
qed

text \<open>
  C1. The claim asks that a configuration whose \<^verbatim>\<open>script\<close> is the path of an existing
  shell file be accepted. The constructor rejects it: the path passes the existence test
  and then reaches the \<^verbatim>\<open>elif\<close>, which raises \<^verbatim>\<open>TypeError\<close> for everything that is
  not a list.
\<close>

theorem init_rejects_existing_script_path:
  "Orchestrator_init_script (\<lambda>p. p = ''/home/user/run.sh'')
       [(''script'', YStr ''/home/user/run.sh'')]
     = Inl (TypeError ''script must be a path to a bash script or a list of bash commands'')"
  by (simp add: Orchestrator_init_script_def fill_config_def DEFAULTS_def)

text \<open>No configuration at all yields an Orchestrator whose script is a path string.\<close>

lemma init_never_accepts_a_path:
  "Orchestrator_init_script isfile cfg \<noteq> Inr (YStr p)"
proof -
  have "is_list script" if "Orchestrator_init_script isfile cfg = Inr script" for script
    using that
    by (auto simp: Orchestrator_init_script_def split: sum.splits option.splits if_splits)
  then show ?thesis by fastforce
qed

text \<open>
  C3, as stated: a YAML value \<^verbatim>\<open>inputs.x = a\<close> and one option \<^verbatim>\<open>--input x:b\<close> would give
  the list \<^verbatim>\<open>[a, b]\<close>. The merge gives \<^verbatim>\<open>b\<close>.
\<close>

theorem cli_input_yaml_accumulate_counterexample:
  "main_inputs [(''inputs'', YDict [(''x'', YStr ''a'')])] [''x:b'']
     \<noteq> Inr [(''inputs'', YDict [(''x'', YList [YStr ''a'', YStr ''b''])])]"
  by (simp add: main_inputs_def merge_inputs_def argparse_get_value_def ConfType_def
      dict_merge_def)

text \<open>
  C3, amended: the value of a \<^verbatim>\<open>--input\<close> option replaces the YAML value of the same
  input name, and options repeated on one name accumulate into a list in the order given.
\<close>

theorem cli_input_merge:
  "merge_inputs [(''inputs'', YDict [(x, YStr a)])] [(x, b)]
     = Inr [(''inputs'', YDict [(x, YStr b)])]
   \<and> merge_inputs [] [(x, b), (x, c)]
     = Inr [(''inputs'', YDict [(x, YList [YStr b, YStr c])])]
   \<and> main_inputs [(''inputs'', YDict [(''x'', YStr ''a'')])] [''x:b'']
     = Inr [(''inputs'', YDict [(''x'', YStr ''b'')])]
   \<and> main_inputs [] [''x:b'', ''x:c'']
     = Inr [(''inputs'', YDict [(''x'', YList [YStr ''b'', YStr ''c''])])]"
  by (simp add: main_inputs_def merge_inputs_def argparse_get_value_def ConfType_def
      dict_merge_def)

text \<open>
  C4. The claim asks that a run started with \<^verbatim>\<open>--dry-run\<close> localize the inputs and
  prepare every task, and stop before the submission. \<^verbatim>\<open>main\<close> passes the flag as a
  positional argument that \<^verbatim>\<open>run_pipeline\<close> does not take, so the call raises before
  the first step; and the body of \<^verbatim>\<open>run_pipeline\<close> has no branch that would skip the
  submission.
\<close>

theorem dry_run_call_raises_before_localizing:
  "main_run_pipeline True script_is_str job_spec
     = Inl (TypeError ''run_pipeline() takes 1 positional argument but 2 were given'')
   \<and> last (run_pipeline_steps script_is_str job_spec) = Sbatch"
proof -
  have "str_nat (Suc (Suc 0)) = ''2''" by code_simp
  then show ?thesis
    by (simp add: main_run_pipeline_def call_run_pipeline_def run_pipeline_steps_def)
qed

text \<open>Decimal digits contain no underscore, so the task is read back from a job id.\<close>

lemma digit_char_not_underscore: "d < 10 \<Longrightarrow> digit_char d \<noteq> CHR ''_''"
proof
  assume d: "d < 10" and "digit_char d = CHR ''_''"
  then have "of_char (char_of (48 + d)) = (of_char (CHR ''_'') :: nat)"
    by (simp add: digit_char_def)
  with d show False by simp
qed

lemma str_nat_no_underscore: "CHR ''_'' \<notin> set (str_nat n)"
proof (induction n rule: str_nat.induct)
  case (1 n)
  show ?case
  proof (cases "n < 10")
    case True
    then show ?thesis using digit_char_not_underscore [of n]
      by (simp add: str_nat.simps [of n])
  next
    case False
    with 1 show ?thesis using digit_char_not_underscore [of "n mod 10"]
      by (simp add: str_nat.simps [of n])
  qed
qed

lemma split_on_no_sep: "c \<notin> set xs \<Longrightarrow> split_on c xs = [xs]"
  by (induction xs) auto

lemma split_on_prefix:
  "c \<notin> set xs \<Longrightarrow> split_on c (xs @ c # ys) = xs # split_on c ys"
  by (induction xs) auto

lemma job_of_jid_of:
  "CHR ''_'' \<notin> set batch_id \<Longrightarrow> job_of_jid (jid_of batch_id i) = Inr (str_nat i)"
  by (simp add: job_of_jid_def jid_of_def split_on_prefix split_on_no_sep str_nat_no_underscore)

lemma finished_cases:
  "finished acct jid = (\<exists>state. acct jid = Some state \<and> state \<noteq> ''RUNNING'' \<and> state \<noteq> ''PENDING'')"
  by (auto simp: finished_def split: option.splits)

text \<open>The poll loop is \<^verbatim>\<open>delocalize\<close> run over the finished tasks.\<close>

lemma run_delocalize_append:
  "run_delocalize deloc (xs @ ys) st =
     (case run_delocalize deloc xs st of Inl e \<Rightarrow> Inl e | Inr st' \<Rightarrow> run_delocalize deloc ys st')"
proof (induction xs arbitrary: st)
  case Nil
  then show ?case by simp
next
  case (Cons x xs)
  obtain s out where st: "st = (s, out)" by (cases st)
  show ?case unfolding st by (simp add: Cons.IH split: sum.splits)
qed

lemma poll_sweep_refines:
  assumes b: "CHR ''_'' \<notin> set b"
  shows "poll_sweep deloc acct (map (jid_of b) idxs) (W, s, out, calls)
      = (case run_delocalize deloc (map str_nat [i \<leftarrow> idxs. finished acct (jid_of b i)]) (s, out) of
           Inl e \<Rightarrow> Inl e
         | Inr (s', out') \<Rightarrow>
             Inr ([j \<leftarrow> W. \<not> (j \<in> jid_of b ` set idxs \<and> finished acct j)], s', out',
                  calls @ map str_nat [i \<leftarrow> idxs. finished acct (jid_of b i)]))"
proof (induction idxs arbitrary: W s out calls)
  case Nil
  then show ?case by simp
next
  case (Cons i idxs)
  show ?case
  proof (cases "finished acct (jid_of b i)")
    case False
    then have step: "poll_sweep deloc acct (map (jid_of b) (i # idxs)) (W, s, out, calls)
        = poll_sweep deloc acct (map (jid_of b) idxs) (W, s, out, calls)"
      by (auto simp: finished_def split: option.splits)
    have flt: "[j \<leftarrow> W. \<not> (j \<in> jid_of b ` set (i # idxs) \<and> finished acct j)]
        = [j \<leftarrow> W. \<not> (j \<in> jid_of b ` set idxs \<and> finished acct j)]"
      using False by (intro filter_cong) auto
    from False show ?thesis
      unfolding step flt Cons.IH by (simp split: sum.splits)
  next
    case True
    then obtain state where st: "acct (jid_of b i) = Some state"
      "state \<noteq> ''RUNNING''" "state \<noteq> ''PENDING''"
      by (auto simp: finished_cases)
    have flt: "[j \<leftarrow> removeAll (jid_of b i) W. \<not> (j \<in> jid_of b ` set idxs \<and> finished acct j)]
        = [j \<leftarrow> W. \<not> (j \<in> jid_of b ` set (i # idxs) \<and> finished acct j)]"
      using True by (induction W) auto
    show ?thesis
    proof (cases "deloc (str_nat i) s")
      case (Inl e)
      with st True show ?thesis by (simp add: job_of_jid_of [OF b])
    next
      case (Inr r)
      obtain s1 res where r: "r = (s1, res)" by (cases r)
      have step: "poll_sweep deloc acct (map (jid_of b) (i # idxs)) (W, s, out, calls)
          = poll_sweep deloc acct (map (jid_of b) idxs)
              (removeAll (jid_of b i) W, s1, dict_merge out res, calls @ [str_nat i])"
        using st Inr r by (simp add: job_of_jid_of [OF b])
      from True Inr r show ?thesis
        unfolding step Cons.IH flt by (simp split: sum.splits)
    qed
  qed
qed

lemma poll_sweep_own_waiting:
  assumes b: "CHR ''_'' \<notin> set b"
  shows "poll_sweep deloc acct (map (jid_of b) idxs) (map (jid_of b) idxs, s, out, calls)
      = (case run_delocalize deloc (map str_nat [i \<leftarrow> idxs. finished acct (jid_of b i)]) (s, out) of
           Inl e \<Rightarrow> Inl e
         | Inr (s', out') \<Rightarrow>
             Inr (map (jid_of b) [i \<leftarrow> idxs. \<not> finished acct (jid_of b i)], s', out',
                  calls @ map str_nat [i \<leftarrow> idxs. finished acct (jid_of b i)]))"
proof -
  have "[j \<leftarrow> map (jid_of b) idxs. \<not> (j \<in> jid_of b ` set idxs \<and> finished acct j)]
      = map (jid_of b) [i \<leftarrow> idxs. \<not> finished acct (jid_of b i)]"
    by (simp add: filter_map comp_def cong: filter_cong)
  then show ?thesis
    unfolding poll_sweep_refines [OF b, of deloc acct idxs "map (jid_of b) idxs" s out calls]
    by (simp split: sum.splits)
qed

lemma delocalized_order_Nil [simp]: "delocalized_order b accts [] = []"
  by (induction accts) simp_all

lemma poll_loop_refines:
  assumes b: "CHR ''_'' \<notin> set b"
  shows "still_waiting b accts idxs = [] \<Longrightarrow>
    poll_loop deloc (accts @ later) (map (jid_of b) idxs, s, out, calls)
      = Some (case run_delocalize deloc (map str_nat (delocalized_order b accts idxs)) (s, out) of
                Inl e \<Rightarrow> Inl e
              | Inr (s', out') \<Rightarrow>
                  Inr ([], s', out', calls @ map str_nat (delocalized_order b accts idxs)))"
proof (induction accts arbitrary: idxs s out calls)
  case Nil
  then show ?case by simp
next
  case (Cons acct accts)
  let ?F = "[i \<leftarrow> idxs. finished acct (jid_of b i)]"
  let ?W = "[i \<leftarrow> idxs. \<not> finished acct (jid_of b i)]"
  from Cons.prems have sw: "still_waiting b accts ?W = []" by simp
  show ?case
  proof (cases "idxs = []")
    case True
    then show ?thesis by simp
  next
    case False
    show ?thesis
    proof (cases "run_delocalize deloc (map str_nat ?F) (s, out)")
      case (Inl e)
      with False show ?thesis
        by (simp add: poll_sweep_own_waiting [OF b] run_delocalize_append del: poll_sweep.simps)
    next
      case (Inr r)
      obtain s1 out1 where r: "r = (s1, out1)" by (cases r)
      from False Inr r have
        "poll_loop deloc ((acct # accts) @ later) (map (jid_of b) idxs, s, out, calls)
          = poll_loop deloc (accts @ later) (map (jid_of b) ?W, s1, out1, calls @ map str_nat ?F)"
        by (simp add: poll_sweep_own_waiting [OF b] del: poll_sweep.simps)
      also have "\<dots> = Some (case run_delocalize deloc (map str_nat (delocalized_order b accts ?W)) (s1, out1) of
                Inl e \<Rightarrow> Inl e
              | Inr (s', out') \<Rightarrow>
                  Inr ([], s', out', (calls @ map str_nat ?F) @ map str_nat (delocalized_order b accts ?W)))"
        by (rule Cons.IH [OF sw])
      finally have eq: "poll_loop deloc ((acct # accts) @ later) (map (jid_of b) idxs, s, out, calls)
          = Some (case run_delocalize deloc (map str_nat (delocalized_order b accts ?W)) (s1, out1) of
                Inl e \<Rightarrow> Inl e
              | Inr (s', out') \<Rightarrow>
                  Inr ([], s', out', (calls @ map str_nat ?F) @ map str_nat (delocalized_order b accts ?W)))" .
      show ?thesis
        unfolding eq using Inr r by (simp add: run_delocalize_append split: sum.splits)
    qed
  qed
qed

text \<open>
  C8. For a batch id free of underscores, one pass of the poll loop over its waiting set is
  \<^verbatim>\<open>delocalize\<close> applied, in order, to the array index of exactly those waiting elements
  that the table lists in a state other than RUNNING and PENDING, whatever that state is,
  each call on the state and the outputs the call before left; those elements are removed
  from the waiting set and the others stay. When the tables list every waiting element in
  such a state at some poll, the loop returns, with the waiting set empty and every element
  delocalized once; it ends in an exception only when a call of \<^verbatim>\<open>delocalize\<close> raises
  one, never because of a state.
\<close>

theorem poll_delocalizes_every_finished_task:
  assumes b: "CHR ''_'' \<notin> set batch_id"
  shows "poll_sweep deloc acct (map (jid_of batch_id) idxs)
        (map (jid_of batch_id) idxs, s, out, calls)
      = (case run_delocalize deloc
               (map str_nat [i \<leftarrow> idxs. finished acct (jid_of batch_id i)]) (s, out) of
           Inl e \<Rightarrow> Inl e
         | Inr (s', out') \<Rightarrow>
             Inr (map (jid_of batch_id) [i \<leftarrow> idxs. \<not> finished acct (jid_of batch_id i)], s', out',
                  calls @ map str_nat [i \<leftarrow> idxs. finished acct (jid_of batch_id i)]))
    \<and> (still_waiting batch_id accts idxs = [] \<longrightarrow>
        poll_loop deloc (accts @ later) (map (jid_of batch_id) idxs, s, out, calls)
          = Some (case run_delocalize deloc
                         (map str_nat (delocalized_order batch_id accts idxs)) (s, out) of
                    Inl e \<Rightarrow> Inl e
                  | Inr (s', out') \<Rightarrow>
                      Inr ([], s', out',
                           calls @ map str_nat (delocalized_order batch_id accts idxs))))"
  by (intro conjI impI) (rule poll_sweep_own_waiting [OF b], rule poll_loop_refines [OF b])

theorem poll_delocalizes_every_finished_task_witness:
  "CHR ''_'' \<notin> set ''7''
   \<and> finished [''7_0'' \<mapsto> ''FAILED'', ''7_1'' \<mapsto> ''RUNNING''] (jid_of ''7'' 0)
   \<and> \<not> finished [''7_0'' \<mapsto> ''FAILED'', ''7_1'' \<mapsto> ''RUNNING''] (jid_of ''7'' 1)
   \<and> still_waiting ''7''
        [[''7_0'' \<mapsto> ''FAILED'', ''7_1'' \<mapsto> ''RUNNING''],
         [''7_0'' \<mapsto> ''FAILED'', ''7_1'' \<mapsto> ''TIMEOUT'']] [0, 1] = []
   \<and> poll_sweep
        (delocalize_task suffix_lib stage_localizer [(''txt'', ''*.txt'')] workspace_walk)
        [''7_0'' \<mapsto> ''FAILED'', ''7_1'' \<mapsto> ''RUNNING'']
        (map (jid_of ''7'') [0, 1]) (map (jid_of ''7'') [0, 1], two_workspaces, [], [])
      = Inr ([''7_1''],
             world_of (delocalize suffix_lib stage_localizer [(''txt'', ''*.txt'')]
                ''canine_output'' ''0'' (workspace_walk ''0'') True two_workspaces),
             [(''0'', [(''txt'', ''canine_output/0/txt/out.txt'')])],
             [''0''])
   \<and> poll_loop
        (delocalize_task suffix_lib stage_localizer [(''txt'', ''*.txt'')] workspace_walk)
        [[''7_0'' \<mapsto> ''FAILED'', ''7_1'' \<mapsto> ''RUNNING''],
         [''7_0'' \<mapsto> ''FAILED'', ''7_1'' \<mapsto> ''TIMEOUT'']]
        (map (jid_of ''7'') [0, 1], two_workspaces, [], [])
      = Some (Inr ([],
             world_of (delocalize suffix_lib stage_localizer [(''txt'', ''*.txt'')]
                ''canine_output'' ''1'' (workspace_walk ''1'') True
                (world_of (delocalize suffix_lib stage_localizer [(''txt'', ''*.txt'')]
                   ''canine_output'' ''0'' (workspace_walk ''0'') True two_workspaces))),
             [(''0'', [(''txt'', ''canine_output/0/txt/out.txt'')]),
              (''1'', [(''txt'', ''canine_output/1/txt/out.txt'')])],
             [''0'', ''1'']))"
proof -
  let ?a1 = "[''7_0'' \<mapsto> ''FAILED'', ''7_1'' \<mapsto> ''RUNNING'']"
  let ?a2 = "[''7_0'' \<mapsto> ''FAILED'', ''7_1'' \<mapsto> ''TIMEOUT'']"
  let ?d = "delocalize_task suffix_lib stage_localizer [(''txt'', ''*.txt'')] workspace_walk"
  let ?w1 = "world_of (delocalize suffix_lib stage_localizer [(''txt'', ''*.txt'')]
                ''canine_output'' ''0'' (workspace_walk ''0'') True two_workspaces)"
  let ?w2 = "world_of (delocalize suffix_lib stage_localizer [(''txt'', ''*.txt'')]
                ''canine_output'' ''1'' (workspace_walk ''1'') True ?w1)"
  have b: "CHR ''_'' \<notin> set ''7''" by simp
  have f0: "finished ?a1 (jid_of ''7'' 0)" and f1: "\<not> finished ?a1 (jid_of ''7'' 1)"
    by code_simp+
  have sw: "still_waiting ''7'' [?a1, ?a2] [0, 1] = []" by code_simp
  have r1: "(case run_delocalize ?d
               (map str_nat [i \<leftarrow> [0, 1]. finished ?a1 (jid_of ''7'' i)]) (two_workspaces, []) of
           Inl e \<Rightarrow> Inl e
         | Inr (s', out') \<Rightarrow>
             Inr (map (jid_of ''7'') [i \<leftarrow> [0, 1]. \<not> finished ?a1 (jid_of ''7'' i)], s', out',
                  [] @ map str_nat [i \<leftarrow> [0, 1]. finished ?a1 (jid_of ''7'' i)]))
      = Inr ([''7_1''], ?w1, [(''0'', [(''txt'', ''canine_output/0/txt/out.txt'')])], [''0''])"
    by code_simp
  have r2: "Some (case run_delocalize ?d
                         (map str_nat (delocalized_order ''7'' [?a1, ?a2] [0, 1]))
                         (two_workspaces, []) of
                    Inl e \<Rightarrow> Inl e
                  | Inr (s', out') \<Rightarrow>
                      Inr ([] :: string list, s', out',
                           [] @ map str_nat (delocalized_order ''7'' [?a1, ?a2] [0, 1])))
      = Some (Inr ([] :: string list, ?w2,
             [(''0'', [(''txt'', ''canine_output/0/txt/out.txt'')]),
              (''1'', [(''txt'', ''canine_output/1/txt/out.txt'')])],
             [''0'', ''1'']))"
    by code_simp
  note t = poll_delocalizes_every_finished_task [OF b, of ?d ?a1 "[0, 1]" two_workspaces "[]" "[]"
      "[?a1, ?a2]" "[]"]
  have sweep: "poll_sweep ?d ?a1 (map (jid_of ''7'') [0, 1])
        (map (jid_of ''7'') [0, 1], two_workspaces, [], [])
      = Inr ([''7_1''], ?w1, [(''0'', [(''txt'', ''canine_output/0/txt/out.txt'')])], [''0''])"
    by (rule trans [OF t [THEN conjunct1] r1])
  from t [THEN conjunct2, rule_format, OF sw]
  have "poll_loop ?d ([?a1, ?a2] @ []) (map (jid_of ''7'') [0, 1], two_workspaces, [], [])
      = Some (Inr ([], ?w2,
             [(''0'', [(''txt'', ''canine_output/0/txt/out.txt'')]),
              (''1'', [(''txt'', ''canine_output/1/txt/out.txt'')])],
             [''0'', ''1'']))"
    by (rule trans [OF _ r2])
  then have loop: "poll_loop ?d [?a1, ?a2] (map (jid_of ''7'') [0, 1], two_workspaces, [], [])
      = Some (Inr ([], ?w2,
             [(''0'', [(''txt'', ''canine_output/0/txt/out.txt'')]),
              (''1'', [(''txt'', ''canine_output/1/txt/out.txt'')])],
             [''0'', ''1'']))"
    by (simp only: append_Nil2)
  from b f0 f1 sw sweep loop show ?thesis by (intro conjI)
qed

text \<open>
  C2. The claim asks for a record for every input overridden \<^verbatim>\<open>common\<close>. The file is
  copied to the common area, but the chain of modes has no case for \<^verbatim>\<open>'common'\<close>: the
  task's input map stays empty.
\<close>

theorem common_override_records_nothing:
  "inputs (world_of (localize quiet_host stage_localizer
       [(''0'', [(''x'', ''/d/ref.fa'')])] (Some [(''x'', YStr ''common'')])
       (fresh_world [''/d/ref.fa''])))
     = [(''0'', [])]
   \<and> sent (world_of (localize quiet_host stage_localizer
       [(''0'', [(''x'', ''/d/ref.fa'')])] (Some [(''x'', YStr ''common'')])
       (fresh_world [''/d/ref.fa''])))
     = [(''/d/ref.fa'', ''stage/common/ref.fa'')]"
  by code_simp




lemma decollide_fresh: "decollide existing filepath \<notin> set existing"
proof (induction existing filepath rule: decollide.induct)
  case (1 existing filepath)
  show ?case
  proof (cases "filepath \<in> set existing")
    case False
    then show ?thesis by (simp add: decollide.simps)
  next
    case True
    obtain root ext where sp: "splitext filepath = (root, ext)" by (cases "splitext filepath")
    from 1 [OF True sp [symmetric]] True sp show ?thesis
      by (simp add: decollide.simps [of existing filepath])
  qed
qed




lemma set_set_add [simp]: "set (set_add xs x) = insert x (set xs)"
  by (auto simp: set_add_def)



text \<open>What the steps of \<^verbatim>\<open>localize\<close> leave alone: the local files and the other records.\<close>

lemma map_of_dict_set: "map_of (dict_set d k v) k' = (if k' = k then Some v else map_of d k')"
  by (induction d) auto


lemma input_of_inputs: "inputs w' = inputs w \<Longrightarrow> input_of w' j a = input_of w j a"
  by (simp add: input_of_def)

lemma local_files_set_input [simp]: "local_files (set_input j a l w) = local_files w"
  by (simp add: set_input_def)

lemma get_requester_pays_keeps:
  "get_requester_pays h path w = (b, w') \<Longrightarrow> local_files w' = local_files w \<and> inputs w' = inputs w"
  by (auto simp: get_requester_pays_def invoke_def Let_def split: if_splits prod.splits)

lemma gsutil_cp_keeps:
  "gsutil_cp h src dst w = Inr (u, w') \<Longrightarrow> local_files w' = local_files w \<and> inputs w' = inputs w"
proof -
  assume a: "gsutil_cp h src dst w = Inr (u, w')"
  obtain pays w1 where g: "get_requester_pays h src w = (pays, w1)"
    by (cases "get_requester_pays h src w")
  from get_requester_pays_keeps [OF g] a g show ?thesis
    by (auto simp: gsutil_cp_def invoke_def check_call_def Let_def split: if_splits)
qed

lemma transport_send_keeps:
  "transport_send src dst w = Inr (u, w') \<Longrightarrow> local_files w' = local_files w \<and> inputs w' = inputs w"
  by (auto simp: transport_send_def split: if_splits)

lemma transport_makedirs_keeps [simp]:
  "local_files (transport_makedirs p w) = local_files w"
  "inputs (transport_makedirs p w) = inputs w"
  by (simp_all add: transport_makedirs_def)

lemma localize_file_keeps:
  "localize_file h self j n v d w = Inr (p, w') \<Longrightarrow> local_files w' = local_files w \<and> inputs w' = inputs w"
  by (auto simp: localize_file_def Let_def split: if_splits sum.splits
           dest!: gsutil_cp_keeps transport_send_keeps)

text \<open>A per-input step that returns has assigned nothing, one record, or one record after staging.\<close>

lemma localize_value_cases:
  assumes "localize_value h self ov cd j a v w = Inr (u, w')"
  obtains (skip) "w' = w"
    | (direct) l where "w' = set_input j a l w"
    | (staged) p w1 where "localize_file h self j a v False w = Inr (p, w1)"
        and "w' = set_input j a (Localization None p) w1"
proof -
  have file_case: thesis
    if "(case localize_file h self j a v False w of
           Inl e \<Rightarrow> Inl e
         | Inr (p, w1) \<Rightarrow> Inr ((), set_input j a (Localization None p) w1)) = Inr (u, w')"
  proof (cases "localize_file h self j a v False w")
    case (Inl e)
    with that show thesis by simp
  next
    case (Inr r)
    obtain p w1 where r: "r = (p, w1)" by (cases r)
    from that Inr r have "w' = set_input j a (Localization None p) w1" by simp
    with Inr r show thesis by (intro staged [of p w1]) simp_all
  qed
  show thesis
  proof (cases "map_of ov a")
    case None
    show thesis
    proof (cases "map_of cd v")
      case (Some dest)
      with None assms have "w' = set_input j a (Localization None dest) w"
        by (simp add: localize_value_def)
      then show thesis by (rule direct)
    next
      case cdn: None
      show thesis
      proof (cases "os_path_isfile w v \<or> startswith v ''gs://''")
        case True
        with None cdn assms show thesis
          by (intro file_case) (simp add: localize_value_def)
      next
        case False
        with None cdn assms have "w' = set_input j a (Localization None v) w"
          by (simp add: localize_value_def)
        then show thesis by (rule direct)
      qed
    qed
  next
    case (Some mode)
    show thesis
    proof (cases "mode = Some ''stream''")
      case True
      with Some assms have "w' = set_input j a (Localization (Some ''stream'') v) w"
        by (simp add: localize_value_def)
      then show thesis by (rule direct)
    next
      case ns: False
      show thesis
      proof (cases "mode = Some ''localize''")
        case True
        with Some assms show thesis
          by (intro file_case) (simp add: localize_value_def)
      next
        case nl: False
        show thesis
        proof (cases "mode = Some ''delayed''")
          case True
          show thesis
          proof (cases "startswith v ''gs://''")
            case gs: True
            with True Some assms have "w' = set_input j a (Localization (Some ''download'') v) w"
              by (simp add: localize_value_def)
            then show thesis by (rule direct)
          next
            case False
            with True Some assms show thesis
              by (intro file_case) (simp add: localize_value_def)
          qed
        next
          case nd: False
          show thesis
          proof (cases "mode = None")
            case True
            with Some assms have "w' = set_input j a (Localization None v) w"
              by (simp add: localize_value_def)
            then show thesis by (rule direct)
          next
            case False
            with ns nl nd Some assms have "w' = w"
              by (simp add: localize_value_def)
            then show thesis by (rule skip)
          qed
        qed
      qed
    qed
  qed
qed

lemma localize_value_local_files:
  assumes "localize_value h self ov cd j a v w = Inr (u, w')"
  shows "local_files w' = local_files w"
  using assms
proof (cases rule: localize_value_cases)
  case skip
  then show ?thesis by simp
next
  case (direct l)
  then show ?thesis by simp
next
  case (staged p w1)
  with localize_file_keeps [OF staged(1)] show ?thesis by simp
qed




lemma localize_values_local_files:
  "localize_values h self ov cd j data w = Inr (u, w') \<Longrightarrow> local_files w' = local_files w"
proof (induction data arbitrary: w)
  case Nil
  then show ?case by simp
next
  case (Cons x data)
  obtain a v where x: "x = (a, v)" by (cases x)
  from Cons.prems x obtain w1 where
    s: "localize_value h self ov cd j a v w = Inr ((), w1)"
    and r: "localize_values h self ov cd j data w1 = Inr (u, w')"
    by (auto split: sum.splits)
  from Cons.IH [OF r] localize_value_local_files [OF s] show ?case by simp
qed



lemma localize_jobs_step:
  assumes "localize_jobs h self ov cd ((j0, data0) # jobs) w = Inr (u, w')"
  obtains w2 w3 where "local_files w2 = local_files w"
    and "\<forall>j a. j \<noteq> j0 \<longrightarrow> input_of w2 j a = input_of w j a"
    and "localize_values h self ov cd j0 data0 w2 = Inr ((), w3)"
    and "localize_jobs h self ov cd jobs w3 = Inr (u, w')"
proof -
  define w1 where "w1 = (if \<not> transport_isdir w (os_path_join (env_CANINE_JOBS self) [j0, ''workspace''])
      then transport_makedirs (os_path_join (env_CANINE_JOBS self) [j0, ''workspace'']) w else w)"
  define w2 where "w2 = w1\<lparr>inputs := dict_set (inputs w1) j0 []\<rparr>"
  have lf: "local_files w2 = local_files w" and i1: "inputs w1 = inputs w"
    by (simp_all add: w2_def w1_def)
  have io: "\<forall>j a. j \<noteq> j0 \<longrightarrow> input_of w2 j a = input_of w j a"
    using i1 by (simp add: input_of_def w2_def map_of_dict_set)
  from assms have "(case localize_values h self ov cd j0 data0 w2 of
           Inl e \<Rightarrow> Inl e
         | Inr (u, w3) \<Rightarrow> localize_jobs h self ov cd jobs w3) = Inr (u, w')"
    by (simp add: Let_def w2_def w1_def)
  then obtain w3 where "localize_values h self ov cd j0 data0 w2 = Inr ((), w3)"
    and "localize_jobs h self ov cd jobs w3 = Inr (u, w')"
    by (auto split: sum.splits)
  with lf io that show thesis by blast
qed

lemma localize_jobs_local_files:
  "localize_jobs h self ov cd jobs w = Inr (u, w') \<Longrightarrow> local_files w' = local_files w"
proof (induction jobs arbitrary: w)
  case Nil
  then show ?case by simp
next
  case (Cons x jobs)
  obtain j0 data0 where x: "x = (j0, data0)" by (cases x)
  from Cons.prems [unfolded x] obtain w2 w3 where
    w2: "local_files w2 = local_files w"
    and s: "localize_values h self ov cd j0 data0 w2 = Inr ((), w3)"
    and r: "localize_jobs h self ov cd jobs w3 = Inr (u, w')"
    by (rule localize_jobs_step) blast
  from Cons.IH [OF r] localize_values_local_files [OF s] w2 show ?case by simp
qed














text \<open>The nested loops of \<^verbatim>\<open>delocalize\<close> work through the matches in order.\<close>

lemma delocalize_matches_append:
  "delocalize_matches j od del (xs @ ys) out w =
     (case delocalize_matches j od del xs out w of
        Inl e \<Rightarrow> Inl e
      | Inr (out1, w1) \<Rightarrow> delocalize_matches j od del ys out1 w1)"
proof (induction xs arbitrary: out w)
  case Nil
  then show ?case by simp
next
  case (Cons x xs)
  obtain n f where x: "x = (n, f)" by (cases x)
  show ?case unfolding x by (simp add: Cons.IH split: sum.splits)
qed

lemma delocalize_filenames_flat:
  "delocalize_filenames lib j od del sd dp name pat fns out w =
     delocalize_matches j od del
       (map (\<lambda>filename. (name, os_path_join dp [filename]))
          (filter (\<lambda>filename.
              fnmatch lib (os_path_join dp [filename]) pat
              \<or> fnmatch lib (relpath lib (os_path_join dp [filename]) sd) pat) fns)) out w"
  by (induction fns arbitrary: out w) (simp_all add: Let_def split: sum.splits)

lemma delocalize_patterns_flat:
  "delocalize_patterns lib j od del sd dp fns pats out w =
     delocalize_matches j od del
       (concat (map (\<lambda>(name, pattern).
         map (\<lambda>filename. (name, os_path_join dp [filename]))
           (filter (\<lambda>filename.
              fnmatch lib (os_path_join dp [filename]) pattern
              \<or> fnmatch lib (relpath lib (os_path_join dp [filename]) sd) pattern)
            fns)) pats)) out w"
proof (induction pats arbitrary: out w)
  case Nil
  then show ?case by simp
next
  case (Cons x pats)
  obtain name pat where x: "x = (name, pat)" by (cases x)
  show ?case
    unfolding x
    by (simp add: delocalize_filenames_flat delocalize_matches_append Cons.IH split: sum.splits)
qed

lemma delocalize_walk_flat:
  "delocalize_walk lib j od del sd pats walk out w =
     delocalize_matches j od del (matches_of lib sd pats walk) out w"
proof (induction walk arbitrary: out w)
  case Nil
  then show ?case by (simp add: matches_of_def)
next
  case (Cons x walk)
  obtain dp dns fns where x: "x = (dp, dns, fns)" by (cases x)
  have m: "matches_of lib sd pats ((dp, dns, fns) # walk)
      = concat (map (\<lambda>(name, pattern).
         map (\<lambda>filename. (name, os_path_join dp [filename]))
           (filter (\<lambda>filename.
              fnmatch lib (os_path_join dp [filename]) pattern
              \<or> fnmatch lib (relpath lib (os_path_join dp [filename]) sd) pattern)
            fns)) pats) @ matches_of lib sd pats walk"
    by (simp add: matches_of_def)
  show ?case
    unfolding x m
    by (simp add: delocalize_patterns_flat delocalize_matches_append Cons.IH split: sum.splits)
qed

text \<open>The directory created for a match depends on the output name only.\<close>

lemma basename_no_slash: "CHR ''/'' \<notin> set (basename p)"
proof
  assume "CHR ''/'' \<in> set (basename p)"
  then have "CHR ''/'' \<in> set (takeWhile (\<lambda>c. c \<noteq> CHR ''/'') (rev p))"
    by (simp add: basename_def)
  then show False by (auto dest: set_takeWhileD)
qed

lemma dirname_join2:
  assumes "CHR ''/'' \<notin> set b"
  shows "dirname (join2 X b) = dirname (join2 X [])"
proof -
  have dw: "dropWhile (\<lambda>c. c \<noteq> CHR ''/'') (rev b @ ys) = dropWhile (\<lambda>c. c \<noteq> CHR ''/'') ys" for ys
    by (rule dropWhile_append2) (use assms in auto)
  have nb: "\<not> startswith b ''/''"
    using assms by (cases b) (auto simp: startswith_def)
  have ne: "\<not> startswith [] ''/''" by (simp add: startswith_def)
  show ?thesis
  proof (cases "X = [] \<or> endswith X ''/''")
    case True
    with nb ne have "join2 X b = X @ b" and "join2 X [] = X" by (simp_all add: join2_def)
    then show ?thesis using dw [of "rev X"] by (simp add: dirname_def)
  next
    case False
    with nb ne have "join2 X b = X @ ''/'' @ b" and "join2 X [] = X @ ''/''"
      by (simp_all add: join2_def)
    then show ?thesis using dw [of "CHR ''/'' # rev X"] by (simp add: dirname_def)
  qed
qed

lemma dirname_output_path:
  "dirname (os_path_join od [j, n, basename f]) = out_dir od j n"
  using dirname_join2 [OF basename_no_slash, of "join2 (join2 od j) n" f]
  by (simp add: os_path_join_def out_dir_def)

lemma set_foldl_set_add: "set (foldl set_add xs ys) = set xs \<union> set ys"
  by (induction ys arbitrary: xs) (auto simp: set_add_def)

lemma delocalize_file_unfold:
  "delocalize_file j n f od w =
     (case os_makedirs (out_dir od j n) w of
        Inl e \<Rightarrow> Inl e
      | Inr (u, w1) \<Rightarrow>
          (case transport_receive f (os_path_join od [j, n, basename f]) w1 of
             Inl e \<Rightarrow> Inl e
           | Inr (u, w2) \<Rightarrow> Inr (os_path_join od [j, n, basename f], w2)))"
  by (simp add: delocalize_file_def Let_def dirname_output_path)

text \<open>
  A match whose directory exists raises and changes nothing; a match that is handled
  leaves its directory behind, has been received, and is gone from the workspace when
  \<^verbatim>\<open>delete\<close> is set.
\<close>

lemma delocalize_match_blocked:
  "out_dir od j n \<in> set (local_dirs w) \<Longrightarrow> out_dir od j n \<noteq> [] \<Longrightarrow>
   delocalize_match j od del n f out w = Inl (FileExistsError (out_dir od j n), w)"
  by (simp add: delocalize_match_def delocalize_file_unfold os_makedirs_def)

lemma delocalize_match_done:
  assumes "delocalize_match j od del n f out w = Inr (out', w')"
  shows "out_dir od j n \<in> set (local_dirs w')" and "out_dir od j n \<noteq> []"
    and "set (local_dirs w) \<subseteq> set (local_dirs w')"
    and "set (received w) \<subseteq> set (received w')"
    and "(f, os_path_join od [j, n, basename f]) \<in> set (received w')"
    and "set (remote_files w') \<subseteq> set (remote_files w)"
    and "del \<longrightarrow> f \<notin> set (remote_files w')"
proof -
  define w1 where "w1 = w\<lparr>local_dirs := foldl set_add (local_dirs w)
      (out_dir od j n # ancestors (out_dir od j n))\<rparr>"
  define w2 where "w2 = w1\<lparr>received := received w1 @ [(f, os_path_join od [j, n, basename f])],
      local_files := set_add (local_files w1) (os_path_join od [j, n, basename f])\<rparr>"
  have mk: "os_makedirs (out_dir od j n) w = Inr ((), w1)"
  proof (cases "os_makedirs (out_dir od j n) w")
    case (Inl ew)
    with assms show ?thesis
      by (cases ew) (simp add: delocalize_match_def delocalize_file_unfold)
  next
    case (Inr r)
    then show ?thesis by (auto simp: os_makedirs_def w1_def split: if_splits)
  qed
  have rc: "transport_receive f (os_path_join od [j, n, basename f]) w1 = Inr ((), w2)"
  proof (cases "transport_receive f (os_path_join od [j, n, basename f]) w1")
    case (Inl ew)
    with assms mk show ?thesis
      by (cases ew) (simp add: delocalize_match_def delocalize_file_unfold)
  next
    case (Inr r)
    then show ?thesis by (auto simp: transport_receive_def w2_def split: if_splits)
  qed
  from assms mk rc have w': "w' = (if del then (if transport_isfile w2 f
        then transport_remove f w2 else w2) else w2)"
    by (simp add: delocalize_match_def delocalize_file_unfold)
  from mk show "out_dir od j n \<noteq> []" by (auto simp: os_makedirs_def split: if_splits)
  have ld: "local_dirs w' = local_dirs w1" and rv: "received w' = received w2"
    by (simp_all add: w' w2_def transport_remove_def)
  show "out_dir od j n \<in> set (local_dirs w')"
    unfolding ld by (simp add: w1_def set_foldl_set_add)
  show "set (local_dirs w) \<subseteq> set (local_dirs w')"
    unfolding ld by (auto simp: w1_def set_foldl_set_add)
  show "set (received w) \<subseteq> set (received w')"
    unfolding rv by (auto simp: w2_def w1_def)
  show "(f, os_path_join od [j, n, basename f]) \<in> set (received w')"
    unfolding rv by (simp add: w2_def)
  show "set (remote_files w') \<subseteq> set (remote_files w)"
    by (auto simp: w' w2_def w1_def transport_remove_def)
  show "del \<longrightarrow> f \<notin> set (remote_files w')"
    by (auto simp: w' transport_remove_def transport_isfile_def)
qed

lemma delocalize_matches_mono:
  "delocalize_matches j od del ms out w = Inr (out', w') \<Longrightarrow>
   set (local_dirs w) \<subseteq> set (local_dirs w') \<and> set (received w) \<subseteq> set (received w')
   \<and> set (remote_files w') \<subseteq> set (remote_files w)"
proof (induction ms arbitrary: out w)
  case Nil
  then show ?case by simp
next
  case (Cons x ms)
  obtain n f where x: "x = (n, f)" by (cases x)
  from Cons.prems x obtain out1 w1 where
    h: "delocalize_match j od del n f out w = Inr (out1, w1)"
    and r: "delocalize_matches j od del ms out1 w1 = Inr (out', w')"
    by (auto split: sum.splits)
  from Cons.IH [OF r] delocalize_match_done(3,4,6) [OF h] show ?case by blast
qed

lemma delocalize_matches_blocked:
  "out_dir od j n \<in> set (local_dirs w) \<Longrightarrow> (n, f) \<in> set ms \<Longrightarrow>
   \<exists>e w'. delocalize_matches j od del ms out w = Inl (e, w')"
proof (induction ms arbitrary: out w)
  case Nil
  then show ?case by simp
next
  case (Cons x ms)
  obtain n0 f0 where x: "x = (n0, f0)" by (cases x)
  show ?case
  proof (cases "delocalize_match j od del n0 f0 out w")
    case (Inl ew)
    then show ?thesis unfolding x by (cases ew) simp
  next
    case (Inr r)
    obtain out1 w1 where r: "r = (out1, w1)" by (cases r)
    note h = Inr [unfolded r]
    have "n0 \<noteq> n"
    proof
      assume "n0 = n"
      with delocalize_match_done(2) [OF h] Cons.prems(1)
      have "delocalize_match j od del n0 f0 out w = Inl (FileExistsError (out_dir od j n), w)"
        by (simp add: delocalize_match_blocked)
      with h show False by simp
    qed
    with Cons.prems(2) x have m: "(n, f) \<in> set ms" by auto
    from delocalize_match_done(3) [OF h] Cons.prems(1)
    have "out_dir od j n \<in> set (local_dirs w1)" by blast
    from Cons.IH [OF this m, of out1] show ?thesis unfolding x by (simp add: h)
  qed
qed

lemma delocalize_matches_repeated:
  "\<not> distinct (map fst ms) \<Longrightarrow> \<exists>e w'. delocalize_matches j od del ms out w = Inl (e, w')"
proof (induction ms arbitrary: out w)
  case Nil
  then show ?case by simp
next
  case (Cons x ms)
  obtain n0 f0 where x: "x = (n0, f0)" by (cases x)
  show ?case
  proof (cases "delocalize_match j od del n0 f0 out w")
    case (Inl ew)
    then show ?thesis unfolding x by (cases ew) simp
  next
    case (Inr r)
    obtain out1 w1 where r: "r = (out1, w1)" by (cases r)
    note h = Inr [unfolded r]
    show ?thesis
    proof (cases "n0 \<in> fst ` set ms")
      case True
      then obtain f where "(n0, f) \<in> set ms" by auto
      from delocalize_matches_blocked [OF delocalize_match_done(1) [OF h] this, of del out1]
      show ?thesis unfolding x by (simp add: h)
    next
      case False
      with Cons.prems x have "\<not> distinct (map fst ms)" by simp
      from Cons.IH [OF this, of out1 w1] show ?thesis unfolding x by (simp add: h)
    qed
  qed
qed

text \<open>
  C10. When two files of one task's workspace match patterns of the same output name,
  \<^verbatim>\<open>delocalize\<close> does not return a mapping; and when the matches before the second one
  have been handled, the call raises \<^verbatim>\<open>FileExistsError\<close> for the directory of that
  output name at the second match, in the world the first matches left: the first match
  has been received and, with \<^verbatim>\<open>delete\<close> set, removed from the workspace.
\<close>

theorem second_match_raises:
  "(\<not> distinct (map fst (matches_of lib
        (os_path_join (env_CANINE_JOBS self) [jobId, ''workspace'']) patterns walk)) \<longrightarrow>
      (\<exists>e w'. delocalize lib self patterns output_dir jobId walk delete w = Inl (e, w')))
   \<and> (matches_of lib (os_path_join (env_CANINE_JOBS self) [jobId, ''workspace'']) patterns walk
        = pre @ (name, f1) # mid @ (name, f2) # post
      \<and> delocalize_matches jobId output_dir delete (pre @ (name, f1) # mid) [] w = Inr (out1, w1)
      \<longrightarrow> delocalize lib self patterns output_dir jobId walk delete w
            = Inl (FileExistsError (out_dir output_dir jobId name), w1)
          \<and> (f1, os_path_join output_dir [jobId, name, basename f1]) \<in> set (received w1)
          \<and> (delete \<longrightarrow> f1 \<notin> set (remote_files w1)))"
proof (intro conjI impI)
  let ?sd = "os_path_join (env_CANINE_JOBS self) [jobId, ''workspace'']"
  assume "\<not> distinct (map fst (matches_of lib ?sd patterns walk))"
  from delocalize_matches_repeated [OF this, of jobId output_dir delete "[]" w]
  show "\<exists>e w'. delocalize lib self patterns output_dir jobId walk delete w = Inl (e, w')"
    by (auto simp: delocalize_def delocalize_walk_flat)
next
  let ?sd = "os_path_join (env_CANINE_JOBS self) [jobId, ''workspace'']"
  assume a: "matches_of lib ?sd patterns walk = pre @ (name, f1) # mid @ (name, f2) # post
      \<and> delocalize_matches jobId output_dir delete (pre @ (name, f1) # mid) [] w = Inr (out1, w1)"
  then have ms: "matches_of lib ?sd patterns walk = (pre @ (name, f1) # mid) @ (name, f2) # post"
    and p: "delocalize_matches jobId output_dir delete (pre @ (name, f1) # mid) [] w = Inr (out1, w1)"
    by simp_all
  from p obtain o0 w0 o1 wa where
    p0: "delocalize_matches jobId output_dir delete pre [] w = Inr (o0, w0)"
    and h: "delocalize_match jobId output_dir delete name f1 o0 w0 = Inr (o1, wa)"
    and pm: "delocalize_matches jobId output_dir delete mid o1 wa = Inr (out1, w1)"
    by (auto simp: delocalize_matches_append split: sum.splits)
  from delocalize_match_done [OF h] delocalize_matches_mono [OF pm]
  have d: "out_dir output_dir jobId name \<in> set (local_dirs w1)"
    and ne: "out_dir output_dir jobId name \<noteq> []"
    and rc: "(f1, os_path_join output_dir [jobId, name, basename f1]) \<in> set (received w1)"
    and rm: "delete \<longrightarrow> f1 \<notin> set (remote_files w1)"
    by blast+
  have "delocalize_matches jobId output_dir delete
        ((pre @ (name, f1) # mid) @ (name, f2) # post) [] w
      = delocalize_matches jobId output_dir delete ((name, f2) # post) out1 w1"
    by (subst delocalize_matches_append) (simp add: p)
  also have "\<dots> = Inl (FileExistsError (out_dir output_dir jobId name), w1)"
    by (simp add: delocalize_match_blocked [OF d ne])
  finally have "delocalize_matches jobId output_dir delete (matches_of lib ?sd patterns walk) [] w
      = Inl (FileExistsError (out_dir output_dir jobId name), w1)"
    unfolding ms .
  then show "delocalize lib self patterns output_dir jobId walk delete w
            = Inl (FileExistsError (out_dir output_dir jobId name), w1)"
    by (simp add: delocalize_def delocalize_walk_flat)
  from rc show "(f1, os_path_join output_dir [jobId, name, basename f1]) \<in> set (received w1)" .
  from rm show "delete \<Longrightarrow> f1 \<notin> set (remote_files w1)" by simp
qed

theorem second_match_raises_witness:
  "\<not> distinct (map fst (matches_of suffix_lib ''stage/jobs/0/workspace'' [(''txt'', ''*.txt'')]
        [(''stage/jobs/0/workspace'', [], [''a.txt'', ''b.txt'', ''stdout''])]))
   \<and> delocalize suffix_lib stage_localizer [(''txt'', ''*.txt'')] ''canine_output'' ''0''
        [(''stage/jobs/0/workspace'', [], [''a.txt'', ''b.txt'', ''stdout''])] True workspace_world
      = Inl (FileExistsError ''canine_output/0/txt'',
             world_of (delocalize_matches ''0'' ''canine_output'' True
               [(''txt'', ''stage/jobs/0/workspace/a.txt'')] [] workspace_world))
   \<and> (''stage/jobs/0/workspace/a.txt'', ''canine_output/0/txt/a.txt'')
        \<in> set (received (world_of (delocalize_matches ''0'' ''canine_output'' True
               [(''txt'', ''stage/jobs/0/workspace/a.txt'')] [] workspace_world)))
   \<and> ''stage/jobs/0/workspace/a.txt''
        \<notin> set (remote_files (world_of (delocalize_matches ''0'' ''canine_output'' True
               [(''txt'', ''stage/jobs/0/workspace/a.txt'')] [] workspace_world)))"
proof -
  let ?walk = "[(''stage/jobs/0/workspace'', [] :: string list, [''a.txt'', ''b.txt'', ''stdout''])]"
  let ?pats = "[(''txt'', ''*.txt'')]"
  let ?f1 = "''stage/jobs/0/workspace/a.txt''"
  let ?f2 = "''stage/jobs/0/workspace/b.txt''"
  let ?w1 = "world_of (delocalize_matches ''0'' ''canine_output'' True [(''txt'', ?f1)] [] workspace_world)"
  have sd: "os_path_join (env_CANINE_JOBS stage_localizer) [''0'', ''workspace'']
      = ''stage/jobs/0/workspace''" by code_simp
  have ms: "matches_of suffix_lib ''stage/jobs/0/workspace'' ?pats ?walk
      = [] @ (''txt'', ?f1) # [] @ (''txt'', ?f2) # []" by code_simp
  have nd: "\<not> distinct (map fst (matches_of suffix_lib ''stage/jobs/0/workspace'' ?pats ?walk))"
    by code_simp
  have p: "delocalize_matches ''0'' ''canine_output'' True ([] @ (''txt'', ?f1) # []) [] workspace_world
      = Inr ([(''txt'', ''canine_output/0/txt/a.txt'')], ?w1)" by code_simp
  have od: "out_dir ''canine_output'' ''0'' ''txt'' = ''canine_output/0/txt''" by code_simp
  have op: "os_path_join ''canine_output'' [''0'', ''txt'', basename ?f1]
      = ''canine_output/0/txt/a.txt''" by code_simp
  from second_match_raises [where lib = suffix_lib and self = stage_localizer and jobId = "''0''"
      and patterns = ?pats and walk = ?walk and output_dir = "''canine_output''" and delete = True
      and w = workspace_world and pre = "[]" and name = "''txt''" and ?f1.0 = ?f1 and mid = "[]"
      and ?f2.0 = ?f2 and post = "[]" and ?out1.0 = "[(''txt'', ''canine_output/0/txt/a.txt'')]"
      and ?w1.0 = ?w1, unfolded sd]
    ms p
  have "delocalize suffix_lib stage_localizer ?pats ''canine_output'' ''0'' ?walk True workspace_world
      = Inl (FileExistsError ''canine_output/0/txt'', ?w1)
    \<and> (?f1, ''canine_output/0/txt/a.txt'') \<in> set (received ?w1)
    \<and> ?f1 \<notin> set (remote_files ?w1)"
    unfolding od op by blast
  with nd show ?thesis by blast
qed




end
